theory Spec2Isabelle
  imports Main "HOL-Library.Multiset"
begin


section \<open>Python strings\<close>

text \<open>
  A Python \<open>str\<close> is a sequence of Unicode code points: \<open>len\<close> counts code points and
  \<open>s[:n]\<close> keeps the first \<open>n\<close> of them. A string is therefore a list of code points,
  each a natural number. Literals of the source that are plain ASCII are written with
  \<open>ustr\<close>; the Korean markers and the pictographs are given by their code points.
\<close>

type_synonym uchar = nat
type_synonym pystr = "uchar list"

definition ustr :: "string \<Rightarrow> pystr" where
  "ustr s = map of_char s"

text \<open>\<open>s.startswith(p)\<close>\<close>

fun startswith :: "pystr \<Rightarrow> pystr \<Rightarrow> bool" where
  "startswith s [] = True"
| "startswith [] (p # ps) = False"
| "startswith (c # cs) (p # ps) = (c = p \<and> startswith cs ps)"

text \<open>\<open>p in s\<close> for strings: \<open>p\<close> occurs in \<open>s\<close> as a contiguous run.\<close>

fun contains :: "pystr \<Rightarrow> pystr \<Rightarrow> bool" where
  "contains [] p = (p = [])"
| "contains (c # cs) p = (startswith (c # cs) p \<or> contains cs p)"

text \<open>
  \<open>s.split(sep)\<close> for a separator of one code point: the result is never empty, and a
  string without the separator is returned whole. A code point that is not the
  separator joins the first piece of what follows it.
\<close>

fun split_on :: "uchar \<Rightarrow> pystr \<Rightarrow> pystr list" where
  "split_on sep [] = [ [] ]"
| "split_on sep (c # cs) =
     (if c = sep then [] # split_on sep cs
      else (case split_on sep cs of
              piece # pieces \<Rightarrow> (c # piece) # pieces
            | [] \<Rightarrow> [ [c] ]))"

text \<open>\<open>sep.join(parts)\<close>\<close>

fun join :: "pystr \<Rightarrow> pystr list \<Rightarrow> pystr" where
  "join sep [] = []"
| "join sep [x] = x"
| "join sep (x # y # ys) = x @ sep @ join sep (y # ys)"

text \<open>
  The code points that \<open>str.isspace\<close> accepts, which are the ones \<open>str.strip()\<close> removes
  from both ends.
\<close>

definition isspace :: "uchar \<Rightarrow> bool" where
  "isspace c =
     ((9 \<le> c \<and> c \<le> 13) \<or> (28 \<le> c \<and> c \<le> 32) \<or> c = 0x85 \<or> c = 0xA0 \<or> c = 0x1680 \<or>
      (0x2000 \<le> c \<and> c \<le> 0x200A) \<or> c = 0x2028 \<or> c = 0x2029 \<or> c = 0x202F \<or>
      c = 0x205F \<or> c = 0x3000)"

definition strip :: "pystr \<Rightarrow> pystr" where
  "strip s = rev (dropWhile isspace (rev (dropWhile isspace s)))"

text \<open>\<open>s.lstrip('+')\<close>\<close>

definition lstrip_char :: "uchar \<Rightarrow> pystr \<Rightarrow> pystr" where
  "lstrip_char ch s = dropWhile (\<lambda>c. c = ch) s"

text \<open>
  \<open>str.lower()\<close> as far as the program can tell. The letters A to Z become a to z. Two
  code points outside ASCII become ASCII when lower-cased: the capital I with a dot above
  (U+0130) becomes \<open>i\<close> followed by a combining dot (U+0307), and the Kelvin sign
  (U+212A) becomes \<open>k\<close>. Every other code point is left as it is here: Python maps it
  to code points outside ASCII, and the program only ever looks for ASCII patterns in a
  lower-cased string.
\<close>

definition lower_char :: "uchar \<Rightarrow> pystr" where
  "lower_char c =
     (if 65 \<le> c \<and> c \<le> 90 then [c + 32]
      else if c = 0x130 then [0x69, 0x307]
      else if c = 0x212A then [0x6B]
      else [c])"

definition lower :: "pystr \<Rightarrow> pystr" where
  "lower s = concat (map lower_char s)"

text \<open>\<open>str(n)\<close> for an integer: decimal digits, with a minus sign when negative.\<close>

fun str_nat :: "nat \<Rightarrow> pystr" where
  "str_nat n = (if n < 10 then [48 + n] else str_nat (n div 10) @ [48 + n mod 10])"

declare str_nat.simps [simp del]

definition str_int :: "int \<Rightarrow> pystr" where
  "str_int i = (if i < 0 then 45 # str_nat (nat (- i)) else str_nat (nat i))"

abbreviation (input) NL :: uchar where "NL \<equiv> 10"
abbreviation (input) DOT :: uchar where "DOT \<equiv> 46"
abbreviation (input) PLUS :: uchar where "PLUS \<equiv> 43"


section \<open>Data model (git\_analyzer.py, code\_reviewer.py)\<close>

text \<open>The dataclass \<open>FileChange\<close>; \<open>change_type\<close> is one of 'A', 'M', 'D', 'R'.\<close>

record FileChange =
  path :: pystr
  change_type :: pystr
  insertions :: int
  deletions :: int
  diff :: pystr

text \<open>The dataclass \<open>GitChanges\<close>.\<close>

record GitChanges =
  staged_files :: "FileChange list"
  unstaged_files :: "FileChange list"
  total_insertions :: int
  total_deletions :: int
  total_files :: int

text \<open>The class \<open>ReviewLevel\<close>: three string constants. A level is passed as a \<open>str\<close>.\<close>

definition QUICK :: pystr where "QUICK = ustr ''quick''"
definition NORMAL :: pystr where "NORMAL = ustr ''normal''"
definition DETAILED :: pystr where "DETAILED = ustr ''detailed''"


section \<open>DiffCompressor: priorities and the line filter\<close>

definition low_priority_patterns :: "pystr list" where
  "low_priority_patterns = map ustr
     [''test_'', ''_test.'', ''.test.'',
      ''spec.'', ''.spec.'',
      ''config.'', ''setup.'', ''requirements.'',
      ''.md'', ''.txt'', ''.yml'', ''.yaml'', ''.json'',
      ''migration'', ''__init__'']"

definition high_priority_patterns :: "pystr list" where
  "high_priority_patterns = map ustr
     [''service'', ''controller'', ''api'', ''model'',
      ''handler'', ''middleware'', ''auth'', ''security'']"

text \<open>
  \<open>_get_file_priority\<close>: each \<open>for\<close> statement returns at the first pattern found, the low
  list first.
\<close>

definition get_file_priority :: "pystr \<Rightarrow> pystr" where
  "get_file_priority p =
     (let path_lower = lower p in
      if list_ex (\<lambda>pattern. contains path_lower pattern) low_priority_patterns
      then ustr ''low''
      else if list_ex (\<lambda>pattern. contains path_lower pattern) high_priority_patterns
      then ustr ''high''
      else ustr ''normal'')"

text \<open>
  The patterns of \<open>_is_important_line\<close>. The two string delimiters are three double
  quotes (code point 34) and three single quotes (code point 39).
\<close>

definition skip_patterns :: "pystr list" where
  "skip_patterns =
     map ustr [''import '', ''from '', ''#'', ''//'', ''/*'', ''*/'',
               ''{'', ''}'', ''('', '')'', ''['', '']'', '';'']
     @ [ [34, 34, 34], [39, 39, 39] ]
     @ map ustr [''pass'', ''console.log'']"

definition important_patterns :: "pystr list" where
  "important_patterns = map ustr
     [''def '', ''class '', ''function '', ''return '',
      ''if '', ''else'', ''for '', ''while '', ''try'', ''catch'',
      ''='', ''await '', ''async '', ''@'']"

text \<open>
  \<open>_is_important_line\<close>. The length test reads the argument as it was passed; only the
  comparison with the skip patterns trims and lower-cases it; the final test looks for
  the important patterns in the argument itself.
\<close>

definition is_important_line :: "pystr \<Rightarrow> bool" where
  "is_important_line line =
     (if line = [] \<or> length line < 3 then False
      else
        let line_lower = strip (lower line) in
        if list_ex (\<lambda>pattern. startswith line_lower pattern \<or> line_lower = pattern)
             skip_patterns
        then False
        else list_ex (\<lambda>pattern. contains line pattern) important_patterns)"


section \<open>DiffCompressor: extracting lines from a diff\<close>

definition signature_keywords :: "pystr list" where
  "signature_keywords = map ustr
     [''def '', ''class '', ''function '', ''const '', ''let '', ''var '',
      ''public '', ''private '', ''protected '', ''async '', ''@'']"

text \<open>\<open>_extract_signatures\<close>: one pass over the lines, appending to \<open>signatures\<close>.\<close>

fun extract_signatures_loop :: "pystr list \<Rightarrow> pystr list \<Rightarrow> pystr list" where
  "extract_signatures_loop [] signatures = signatures"
| "extract_signatures_loop (line # lines) signatures =
     (let clean = strip (lstrip_char PLUS line) in
      if list_ex (\<lambda>kw. contains clean kw) signature_keywords
         \<and> (contains clean (ustr ''('') \<or> contains clean (ustr ''class ''))
      then extract_signatures_loop lines (signatures @ [take 120 clean])
      else extract_signatures_loop lines signatures)"

definition extract_signatures :: "pystr list \<Rightarrow> pystr list" where
  "extract_signatures lines = extract_signatures_loop lines []"

text \<open>
  \<open>_extract_key_changes\<close>: the loop stops (\<open>break\<close>) as soon as \<open>key_lines\<close> has
  \<open>limit\<close> entries, which it tests after each append.
\<close>

fun extract_key_changes_loop :: "pystr list \<Rightarrow> int \<Rightarrow> pystr list \<Rightarrow> pystr list" where
  "extract_key_changes_loop [] limit key_lines = key_lines"
| "extract_key_changes_loop (line # lines) limit key_lines =
     (if startswith line (ustr ''+'') \<and> \<not> startswith line (ustr ''+++'')
      then
        (let clean = strip (drop 1 line) in
         if is_important_line clean
         then
           (let key_lines' = key_lines @ [ustr ''+ '' @ take 100 clean] in
            if int (length key_lines') \<ge> limit then key_lines'
            else extract_key_changes_loop lines limit key_lines')
         else extract_key_changes_loop lines limit key_lines)
      else extract_key_changes_loop lines limit key_lines)"

definition extract_key_changes :: "pystr \<Rightarrow> int \<Rightarrow> pystr list" where
  "extract_key_changes d limit = extract_key_changes_loop (split_on NL d) limit []"

text \<open>
  The loop of \<open>_compress_diff_content\<close> over the lines of a modified or deleted file,
  with its two accumulators \<open>additions\<close> and \<open>deletions\<close>.
\<close>

fun collect_loop :: "pystr list \<Rightarrow> pystr list \<Rightarrow> pystr list \<Rightarrow> pystr list \<times> pystr list" where
  "collect_loop [] additions deletions' = (additions, deletions')"
| "collect_loop (line # lines) additions deletions' =
     (if startswith line (ustr ''+'') \<and> \<not> startswith line (ustr ''+++'')
      then
        (let clean_line = strip (drop 1 line) in
         if is_important_line clean_line
         then collect_loop lines (additions @ [ustr ''+ '' @ take 100 clean_line]) deletions'
         else collect_loop lines additions deletions')
      else if startswith line (ustr ''-'') \<and> \<not> startswith line (ustr ''---'')
      then
        (let clean_line = strip (drop 1 line) in
         if is_important_line clean_line
         then collect_loop lines additions (deletions' @ [ustr ''- '' @ take 100 clean_line])
         else collect_loop lines additions deletions')
      else collect_loop lines additions deletions')"

text \<open>The three Korean headings: "new definitions:", "removed:", "added:".\<close>

definition NEW_DEFINITIONS :: pystr where
  "NEW_DEFINITIONS = [0xC0C8, 0xB85C, 0xC6B4, 0x20, 0xC815, 0xC758, 0x3A]"

definition REMOVED :: pystr where
  "REMOVED = [0xC81C, 0xAC70, 0xB428, 0x3A]"

definition ADDED :: pystr where
  "ADDED = [0xCD94, 0xAC00, 0xB428, 0x3A]"

text \<open>\<open>max_lines\<close> of \<open>_compress_diff_content\<close>.\<close>

definition max_lines :: "pystr \<Rightarrow> nat" where
  "max_lines level = (if level = DETAILED then 20 else 10)"

text \<open>\<open>_compress_diff_content\<close>\<close>

definition compress_diff_content :: "pystr \<Rightarrow> pystr \<Rightarrow> pystr \<Rightarrow> pystr" where
  "compress_diff_content d level ctype =
     (let lines = split_on NL d;
          result =
            (if ctype = ustr ''A''
             then
               (let signatures = extract_signatures lines in
                if signatures \<noteq> []
                then [NEW_DEFINITIONS] @ take (if level = DETAILED then 15 else 8) signatures
                else extract_key_changes d 10)
             else
               (let (additions, deletions') = collect_loop lines [] [] in
                (if deletions' \<noteq> []
                 then [REMOVED] @ take (max_lines level div 2) deletions' else [])
                @ (if additions \<noteq> []
                   then [ADDED] @ take (max_lines level div 2) additions else [])))
      in join [NL] (take 30 result))"


section \<open>DiffCompressor: the three modes\<close>

text \<open>The header line of a file in smart mode.\<close>

definition smart_header :: "FileChange \<Rightarrow> pystr" where
  "smart_header change =
     [0xA, 0x2501, 0x2501, 0x2501, 0x20] @ path change @ ustr '' ('' @ change_type change
     @ ustr '') +'' @ str_int (insertions change) @ ustr ''/-'' @ str_int (deletions change)
     @ [NL]"

text \<open>What one iteration of \<open>_compress_smart\<close> appends for a file it keeps.\<close>

definition smart_segment :: "pystr \<Rightarrow> FileChange \<Rightarrow> pystr" where
  "smart_segment level change =
     (let result = smart_header change in
      if diff change \<noteq> []
      then result @ compress_diff_content (diff change) level (change_type change) @ [NL]
      else result)"

text \<open>\<open>_compress_smart\<close>: one pass over the changes, appending to \<open>result\<close>.\<close>

fun compress_smart_loop :: "FileChange list \<Rightarrow> pystr \<Rightarrow> pystr \<Rightarrow> pystr" where
  "compress_smart_loop [] level result = result"
| "compress_smart_loop (change # changes) level result =
     (let priority = get_file_priority (path change) in
      if priority = ustr ''low'' \<and> level = QUICK
      then compress_smart_loop changes level result
      else compress_smart_loop changes level (result @ smart_segment level change))"

definition compress_smart :: "FileChange list \<Rightarrow> pystr \<Rightarrow> pystr" where
  "compress_smart changes level = compress_smart_loop changes level []"

text \<open>\<open>_compress_minimal\<close>\<close>

definition minimal_header :: "FileChange \<Rightarrow> pystr" where
  "minimal_header change =
     [0xA, 0x2022, 0x20] @ path change @ ustr '' ('' @ change_type change
     @ ustr '') +'' @ str_int (insertions change) @ ustr ''/-'' @ str_int (deletions change)
     @ [NL]"

definition KEY_CHANGES :: pystr where
  "KEY_CHANGES = [0x20, 0x20, 0xD575, 0xC2EC, 0x20, 0xBCC0, 0xACBD, 0x3A, 0xA]"

definition CHANGED_FILES :: pystr where
  "CHANGED_FILES = [0x1F4DD, 0x20, 0xBCC0, 0xACBD, 0x20, 0xD30C, 0xC77C, 0x3A, 0xA]"

fun compress_minimal_loop :: "FileChange list \<Rightarrow> pystr \<Rightarrow> pystr" where
  "compress_minimal_loop [] result = result"
| "compress_minimal_loop (change # changes) result =
     (let result1 = result @ minimal_header change;
          key_changes = extract_key_changes (diff change) 5;
          result2 =
            (if key_changes \<noteq> []
             then foldl (\<lambda>r line. r @ ustr ''    '' @ line @ [NL])
                    (result1 @ KEY_CHANGES) key_changes
             else result1)
      in compress_minimal_loop changes result2)"

definition compress_minimal :: "FileChange list \<Rightarrow> pystr" where
  "compress_minimal changes = compress_minimal_loop changes CHANGED_FILES"

text \<open>
  \<open>_compress_summary\<close>. The extension of a path is what follows its last dot, or
  \<open>other\<close> when it has none.
\<close>

definition ext_of :: "pystr \<Rightarrow> pystr" where
  "ext_of p = (if DOT \<in> set p then last (split_on DOT p) else ustr ''other'')"

text \<open>
  The dictionary \<open>by_type\<close> keeps its keys in the order they were first inserted, so it
  is an association list: a new extension is appended with an empty list, then the
  change is appended to the list of its extension.
\<close>

definition by_type_add ::
  "(pystr \<times> FileChange list) list \<Rightarrow> FileChange \<Rightarrow> (pystr \<times> FileChange list) list" where
  "by_type_add by_type change =
     (let ext = ext_of (path change);
          by_type1 = (if ext \<notin> set (map fst by_type) then by_type @ [(ext, [])] else by_type)
      in map (\<lambda>(k, files). if k = ext then (k, files @ [change]) else (k, files)) by_type1)"

definition group_by_type :: "FileChange list \<Rightarrow> (pystr \<times> FileChange list) list" where
  "group_by_type changes = foldl by_type_add [] changes"

text \<open>
  \<open>sorted(files, key=..., reverse=True)\<close>: a stable sort, largest first; files of equal
  size keep the order they had.
\<close>

definition volume :: "FileChange \<Rightarrow> int" where
  "volume f = insertions f + deletions f"

definition sorted_files :: "FileChange list \<Rightarrow> FileChange list" where
  "sorted_files files = sort_key (\<lambda>f. - volume f) files"

definition BANNER :: pystr where
  "BANNER = [0x26A0, 0xFE0F, 0x20, 0x20, 0xB300, 0xB7C9, 0x20, 0xBCC0, 0xACBD, 0x20, 0xAC10,
             0xC9C0, 0x20, 0x2D, 0x20, 0xC694, 0xC57D, 0x20, 0xB9AC, 0xBDF0, 0xA, 0xA]"

definition summary_file_line :: "FileChange \<Rightarrow> pystr" where
  "summary_file_line f =
     [0x20, 0x20, 0x2022, 0x20] @ path f @ ustr '' (+'' @ str_int (insertions f)
     @ ustr ''/-'' @ str_int (deletions f) @ ustr '')'' @ [NL]"

definition summary_group_line :: "pystr \<Rightarrow> FileChange list \<Rightarrow> pystr" where
  "summary_group_line ext files =
     (let total_add = sum_list (map insertions files);
          total_del = sum_list (map deletions files)
      in [0x1F4C1, 0x20, 0x2E] @ ext @ [0x20, 0xD30C, 0xC77C, 0x3A, 0x20]
         @ str_int (int (length files)) @ [0xAC1C, 0x20, 0x28, 0x2B] @ str_int total_add
         @ ustr ''/-'' @ str_int total_del @ ustr '')'' @ [NL])"

definition summary_group :: "pystr \<Rightarrow> pystr \<times> FileChange list \<Rightarrow> pystr" where
  "summary_group summary entry =
     (case entry of (ext, files) \<Rightarrow>
        foldl (\<lambda>s f. s @ summary_file_line f)
          (summary @ summary_group_line ext files)
          (take 2 (sorted_files files)))"

definition compress_summary :: "FileChange list \<Rightarrow> pystr" where
  "compress_summary changes = foldl summary_group BANNER (group_by_type changes)"

text \<open>\<open>compress\<close>\<close>

definition total_lines :: "FileChange list \<Rightarrow> int" where
  "total_lines changes = sum_list (map (\<lambda>c. insertions c + deletions c) changes)"

definition compress :: "FileChange list \<Rightarrow> pystr \<Rightarrow> pystr" where
  "compress changes level =
     (if total_lines changes > 500 \<and> level \<noteq> DETAILED then compress_summary changes
      else if total_lines changes > 200 \<and> level = QUICK then compress_minimal changes
      else compress_smart changes level)"


section \<open>CodeReviewer.review\<close>

datatype py_error = ValueError pystr | RuntimeError pystr | NoSuchPathError | BadName

text \<open>
  The dictionary that \<open>review\<close> returns; the keys \<open>compressed_diff\<close> and \<open>level\<close> are
  absent when there was nothing to review.
\<close>

record ReviewResult =
  review_text :: pystr
  compressed_diff :: "pystr option"
  token_estimate :: int
  review_level :: "pystr option"

definition NO_CHANGES :: pystr where
  "NO_CHANGES = [0x2705, 0x20, 0xBCC0, 0xACBD, 0xC0AC, 0xD56D, 0xC774, 0x20, 0xC5C6, 0xC2B5,
                 0xB2C8, 0xB2E4, 0x2E]"

definition REVIEW_FAILED :: pystr where
  "REVIEW_FAILED = [0xCF54, 0xB4DC, 0x20, 0xB9AC, 0xBDF0, 0x20, 0xC2E4, 0xD328, 0x3A, 0x20]"

text \<open>
  \<open>review\<close>. The provider is the remote model: given the compressed diff, the level and
  the configuration it returns the review text, or raises (\<open>Inl\<close> with the message).
\<close>

text \<open>The token estimate: a quarter of the length, rounded down.\<close>

definition estimate_tokens :: "pystr \<Rightarrow> int" where
  "estimate_tokens report = int (length report) div 4"

definition review ::
  "(pystr \<Rightarrow> pystr \<Rightarrow> 'cfg \<Rightarrow> pystr + pystr) \<Rightarrow> FileChange list \<Rightarrow> 'cfg \<Rightarrow> pystr
   \<Rightarrow> py_error + ReviewResult" where
  "review provider changes config level =
     (if changes = []
      then Inr \<lparr>review_text = NO_CHANGES, compressed_diff = None, token_estimate = 0,
                review_level = None\<rparr>
      else
        (let cd = compress changes level;
             estimate = estimate_tokens cd
         in case provider cd level config of
              Inr text \<Rightarrow>
                Inr \<lparr>review_text = text, compressed_diff = Some cd,
                     token_estimate = estimate, review_level = Some level\<rparr>
            | Inl e \<Rightarrow> Inl (RuntimeError (REVIEW_FAILED @ e))))"


section \<open>The compression of a modified file, in the words of its description\<close>

text \<open>
  A line of a diff is an added line when it starts with a plus sign and is not a file
  header (\<open>+++\<close>); a removed line likewise with a minus sign.
\<close>

definition added_line :: "pystr \<Rightarrow> bool" where
  "added_line line = (startswith line (ustr ''+'') \<and> \<not> startswith line (ustr ''+++''))"

definition removed_line :: "pystr \<Rightarrow> bool" where
  "removed_line line = (startswith line (ustr ''-'') \<and> \<not> startswith line (ustr ''---''))"

text \<open>
  The added lines of a diff that pass the importance filter, in the order of the diff,
  each trimmed, cut to 100 code points and rendered after a plus sign; and the removed
  lines likewise.
\<close>

definition important_added :: "pystr \<Rightarrow> pystr list" where
  "important_added d =
     map (\<lambda>line. ustr ''+ '' @ take 100 (strip (drop 1 line)))
       (filter (\<lambda>line. added_line line \<and> is_important_line (strip (drop 1 line)))
          (split_on NL d))"

definition important_removed :: "pystr \<Rightarrow> pystr list" where
  "important_removed d =
     map (\<lambda>line. ustr ''- '' @ take 100 (strip (drop 1 line)))
       (filter (\<lambda>line. removed_line line \<and> is_important_line (strip (drop 1 line)))
          (split_on NL d))"

text \<open>A group of lines under its heading, capped; nothing when the group is empty.\<close>

definition capped_group :: "pystr \<Rightarrow> nat \<Rightarrow> pystr list \<Rightarrow> pystr list" where
  "capped_group heading cap entries = (if entries \<noteq> [] then heading # take cap entries else [])"


section \<open>The summary of a large change, in the words of its description\<close>

text \<open>The elements of a list, each once, in the order in which they first appear.\<close>

fun first_seen :: "'a list \<Rightarrow> 'a list" where
  "first_seen [] = []"
| "first_seen (x # xs) = x # filter (\<lambda>y. y \<noteq> x) (first_seen xs)"

text \<open>The files with a given extension, in the order of the change list.\<close>

definition ext_group :: "FileChange list \<Rightarrow> pystr \<Rightarrow> FileChange list" where
  "ext_group changes ext = filter (\<lambda>c. ext_of (path c) = ext) changes"

text \<open>
  The line of a group as described: a folder sign, the extension after a dot, the
  number of files, and in parentheses the insertions after a plus sign and the
  deletions after a minus sign.
\<close>

definition described_group_line :: "pystr \<Rightarrow> nat \<Rightarrow> int \<Rightarrow> int \<Rightarrow> pystr" where
  "described_group_line ext n total_add total_del =
     [0x1F4C1, 0x20, 0x2E] @ ext @ [0x20, 0xD30C, 0xC77C, 0x3A, 0x20] @ str_int (int n)
     @ [0xAC1C, 0x20, 0x28, 0x2B] @ str_int total_add @ [0x2F, 0x2D] @ str_int total_del
     @ [0x29, NL]"

text \<open>The line of a listed file: a bullet, the path, and its own two counts.\<close>

definition described_file_line :: "pystr \<Rightarrow> int \<Rightarrow> int \<Rightarrow> pystr" where
  "described_file_line p ins dels =
     [0x20, 0x20, 0x2022, 0x20] @ p @ [0x20, 0x28, 0x2B] @ str_int ins @ [0x2F, 0x2D]
     @ str_int dels @ [0x29, NL]"

text \<open>
  The text for one extension: the line with the number of files and the sums of
  their insertions and deletions, then one line for each of the two largest files.
\<close>

definition summary_of_group :: "pystr \<Rightarrow> FileChange list \<Rightarrow> pystr" where
  "summary_of_group ext files =
     described_group_line ext (length files) (sum_list (map insertions files))
       (sum_list (map deletions files))
     @ concat (map (\<lambda>f. described_file_line (path f) (insertions f) (deletions f))
                 (take 2 (sorted_files files)))"

text \<open>
  The summary: the banner (a warning sign and a Korean sentence, then an empty line),
  then the text of each extension in order of appearance.
\<close>

definition summary_spec :: "FileChange list \<Rightarrow> pystr" where
  "summary_spec changes =
     [0x26A0, 0xFE0F, 0x20, 0x20, 0xB300, 0xB7C9, 0x20, 0xBCC0, 0xACBD, 0x20, 0xAC10, 0xC9C0,
      0x20, 0x2D, 0x20, 0xC694, 0xC57D, 0x20, 0xB9AC, 0xBDF0, NL, NL]
     @ concat (map (\<lambda>ext. summary_of_group ext (ext_group changes ext))
                 (first_seen (map (\<lambda>c. ext_of (path c)) changes)))"


section \<open>A file kept in smart mode, in the words of its description\<close>

text \<open>
  The header of a file: an empty line, three heavy strokes, the path, the change kind
  in parentheses, the insertions after a plus sign and the deletions after a minus
  sign.
\<close>

definition described_header :: "pystr \<Rightarrow> pystr \<Rightarrow> int \<Rightarrow> int \<Rightarrow> pystr" where
  "described_header p kind ins dels =
     [NL, 0x2501, 0x2501, 0x2501, 0x20] @ p @ [0x20, 0x28] @ kind @ [0x29, 0x20, 0x2B]
     @ str_int ins @ [0x2F, 0x2D] @ str_int dels @ [NL]"

text \<open>
  The segment of a file: its header, then, unless the diff is empty, the compressed
  body and a line break.
\<close>

definition described_segment :: "pystr \<Rightarrow> FileChange \<Rightarrow> pystr" where
  "described_segment level c =
     described_header (path c) (change_type c) (insertions c) (deletions c)
     @ (if diff c = [] then []
        else compress_diff_content (diff c) level (change_type c) @ [NL])"


section \<open>GitAnalyzer (git\_analyzer.py)\<close>

text \<open>
  What the analyzer asks of the repository and of the file system. Each field is the
  answer to one query the source makes; \<open>None\<close> stands for a query that raises.
  \<^item> \<open>git_status\<close>: \<open>repo.git.status('--porcelain')\<close>;
  \<^item> \<open>subprocess_status\<close>: the lines (\<open>splitlines()\<close>) of \<open>git status --porcelain\<close> run as
    a subprocess;
  \<^item> \<open>git_diff_cached\<close>: \<open>repo.git.diff('--cached', file_path)\<close>;
  \<^item> \<open>subprocess_diff\<close>: the output of \<open>git diff -- file_path\<close> run as a subprocess;
  \<^item> \<open>read_file\<close>: whether the file exists and, if so, what reading it as text gives;
  \<^item> \<open>untracked_files\<close>: \<open>repo.untracked_files\<close>;
  \<^item> \<open>is_dirty\<close> and \<open>index_diff_head\<close>: \<open>repo.is_dirty()\<close> and the number of entries of
    \<open>repo.index.diff("HEAD")\<close>, which raises \<open>BadName\<close> in a repository without a commit.
\<close>

datatype file_read = Missing | Unreadable | Content pystr

record Repo =
  git_status :: "pystr option"
  subprocess_status :: "pystr list option"
  git_diff_cached :: "pystr \<Rightarrow> pystr option"
  subprocess_diff :: "pystr \<Rightarrow> pystr option"
  read_file :: "pystr \<Rightarrow> file_read"
  untracked_files :: "pystr list"
  is_dirty :: bool
  index_diff_head :: "nat option"

text \<open>
  \<open>git.Repo(path, search_parent_directories=True)\<close> either opens a repository or raises
  one of two exceptions.
\<close>

datatype repo_open = Opened Repo | Invalid_Git_Repository | No_Such_Path

record GitAnalyzer =
  repo_path :: pystr
  repo :: Repo

text \<open>The message of the \<open>ValueError\<close> of \<open>__init__\<close>, around the path.\<close>

definition NOT_A_REPOSITORY :: pystr where
  "NOT_A_REPOSITORY = [0x27, 0xB294, 0x20, 0xC720, 0xD6A8, 0xD55C, 0x20, 0x47, 0x69, 0x74, 0x20,
                       0xC800, 0xC7A5, 0xC18C, 0xAC00, 0x20, 0xC544, 0xB2D9, 0xB2C8, 0xB2E4, 0x2E]"

text \<open>
  \<open>GitAnalyzer.__init__\<close>: \<open>repo_path or "."\<close>, then the repository is opened. Only
  \<open>InvalidGitRepositoryError\<close> is caught and raised again as a \<open>ValueError\<close>.
\<close>

definition path_or_dot :: "pystr option \<Rightarrow> pystr" where
  "path_or_dot repo_path_arg =
     (case repo_path_arg of None \<Rightarrow> ustr ''.'' | Some q \<Rightarrow> if q = [] then ustr ''.'' else q)"

definition GitAnalyzer_init :: "(pystr \<Rightarrow> repo_open) \<Rightarrow> pystr option \<Rightarrow> py_error + GitAnalyzer" where
  "GitAnalyzer_init git_Repo repo_path_arg =
     (let p = path_or_dot repo_path_arg
      in case git_Repo p of
           Opened r \<Rightarrow> Inr \<lparr>repo_path = p, repo = r\<rparr>
         | Invalid_Git_Repository \<Rightarrow> Inl (ValueError ([0x27] @ p @ NOT_A_REPOSITORY))
         | No_Such_Path \<Rightarrow> Inl NoSuchPathError)"

text \<open>\<open>_count_changes\<close>\<close>

fun count_changes_loop :: "pystr list \<Rightarrow> int \<Rightarrow> int \<Rightarrow> int \<times> int" where
  "count_changes_loop [] ins dels = (ins, dels)"
| "count_changes_loop (line # lines) ins dels =
     (if startswith line (ustr ''+'') \<and> \<not> startswith line (ustr ''+++'')
      then count_changes_loop lines (ins + 1) dels
      else if startswith line (ustr ''-'') \<and> \<not> startswith line (ustr ''---'')
      then count_changes_loop lines ins (dels + 1)
      else count_changes_loop lines ins dels)"

definition count_changes :: "pystr \<Rightarrow> int \<times> int" where
  "count_changes diff_text = count_changes_loop (split_on NL diff_text) 0 0"

text \<open>
  Assignment \<open>d[k] = v\<close> to a dictionary: a key that is present keeps its place, a new
  key goes to the end.
\<close>

fun dict_set :: "('k \<times> 'v) list \<Rightarrow> 'k \<Rightarrow> 'v \<Rightarrow> ('k \<times> 'v) list" where
  "dict_set [] k v = [(k, v)]"
| "dict_set ((k', v') # d) k v = (if k' = k then (k, v) # d else (k', v') # dict_set d k v)"

text \<open>
  \<open>get_staged_changes\<close>. First the status lines are read into the dictionary
  \<open>staged_files\<close>, from path to the first status letter.
\<close>

definition staged_status_add :: "(pystr \<times> pystr) list \<Rightarrow> pystr \<Rightarrow> (pystr \<times> pystr) list" where
  "staged_status_add staged line =
     (if length line < 4 then staged
      else
        (let status_code = take 2 line;
             file_path = drop 3 line;
             first_char = take 1 status_code
         in if first_char \<in> set (map ustr [''A'', ''M'', ''D'', ''R''])
            then dict_set staged file_path first_char
            else staged))"

text \<open>
  What the body of the second loop appends for one staged file. A file that cannot be
  read, or whose diff cannot be had, is skipped with a warning. A new file is read from
  disk: every line of it becomes a line of the diff with a plus sign before it.
\<close>

definition staged_change :: "Repo \<Rightarrow> pystr \<Rightarrow> pystr \<Rightarrow> FileChange list" where
  "staged_change r file_path status =
     (if status = ustr ''A'' then
        (case read_file r file_path of
           Content content \<Rightarrow>
             (let diff_lines = map (\<lambda>line. PLUS # line) (split_on NL content);
                  diff_text = join [NL] diff_lines
              in [\<lparr>path = file_path, change_type = ustr ''A'',
                   insertions = int (length (split_on NL content)), deletions = 0,
                   diff = diff_text\<rparr>])
         | _ \<Rightarrow> [])
      else if status = ustr ''M'' then
        (case git_diff_cached r file_path of
           Some diff_output \<Rightarrow>
             [\<lparr>path = file_path, change_type = ustr ''M'',
               insertions = fst (count_changes diff_output),
               deletions = snd (count_changes diff_output), diff = diff_output\<rparr>]
         | None \<Rightarrow> [])
      else if status = ustr ''D'' then
        (case git_diff_cached r file_path of
           Some diff_output \<Rightarrow>
             [\<lparr>path = file_path, change_type = ustr ''D'',
               insertions = fst (count_changes diff_output),
               deletions = snd (count_changes diff_output), diff = diff_output\<rparr>]
         | None \<Rightarrow> [])
      else [])"

definition get_staged_changes :: "Repo \<Rightarrow> FileChange list" where
  "get_staged_changes r =
     (case git_status r of
        None \<Rightarrow> []
      | Some out \<Rightarrow>
          concat (map (\<lambda>(file_path, status). staged_change r file_path status)
                    (foldl staged_status_add [] (split_on NL out))))"

text \<open>
  \<open>get_unstaged_changes\<close>. Here the second status letter decides, the paths are
  trimmed, and they are kept in a list of pairs.
\<close>

definition unstaged_status_add :: "(pystr \<times> pystr) list \<Rightarrow> pystr \<Rightarrow> (pystr \<times> pystr) list" where
  "unstaged_status_add unstaged line =
     (if length line < 4 then unstaged
      else
        (let status_code = take 1 (drop 1 line);
             file_path = strip (drop 3 line)
         in if status_code \<in> set (map ustr [''M'', ''D'', ''A'']) \<and> status_code \<noteq> ustr '' ''
            then unstaged @ [(status_code, file_path)]
            else unstaged))"

definition unstaged_change :: "Repo \<Rightarrow> pystr \<Rightarrow> pystr \<Rightarrow> FileChange list" where
  "unstaged_change r status_code file_path =
     (if status_code = ustr ''M'' then
        (case subprocess_diff r file_path of
           Some diff_text \<Rightarrow>
             [\<lparr>path = file_path, change_type = ustr ''M'',
               insertions = fst (count_changes diff_text),
               deletions = snd (count_changes diff_text), diff = diff_text\<rparr>]
         | None \<Rightarrow> [])
      else if status_code = ustr ''D'' then
        (case subprocess_diff r file_path of
           Some diff_text \<Rightarrow>
             [\<lparr>path = file_path, change_type = ustr ''D'',
               insertions = fst (count_changes diff_text),
               deletions = snd (count_changes diff_text), diff = diff_text\<rparr>]
         | None \<Rightarrow> [])
      else if status_code = ustr ''A'' then
        (case read_file r file_path of
           Content content \<Rightarrow>
             (if content \<noteq> [] then
                (let diff_lines = map (\<lambda>line. PLUS # line) (split_on NL content);
                     diff_text = join [NL] diff_lines
                 in [\<lparr>path = file_path, change_type = ustr ''A'',
                      insertions = int (length (split_on NL content)), deletions = 0,
                      diff = diff_text\<rparr>])
              else [])
         | _ \<Rightarrow> [])
      else [])"

definition get_unstaged_changes :: "Repo \<Rightarrow> FileChange list" where
  "get_unstaged_changes r =
     (case subprocess_status r of
        None \<Rightarrow> []
      | Some status_lines \<Rightarrow>
          concat (map (\<lambda>(status_code, file_path). unstaged_change r status_code file_path)
                    (foldl unstaged_status_add [] status_lines)))"

text \<open>
  \<open>get_all_changes\<close>. An untracked file that exists and can be read is appended to the
  unstaged files as an added file; its \<open>diff\<close> is the content as read.
\<close>

definition untracked_change :: "Repo \<Rightarrow> pystr \<Rightarrow> FileChange list" where
  "untracked_change r file_path =
     (case read_file r file_path of
        Content content \<Rightarrow>
          [\<lparr>path = file_path, change_type = ustr ''A'',
            insertions = int (length (split_on NL content)), deletions = 0,
            diff = content\<rparr>]
      | _ \<Rightarrow> [])"

definition get_all_changes :: "Repo \<Rightarrow> bool \<Rightarrow> GitChanges" where
  "get_all_changes r include_untracked =
     (let staged = get_staged_changes r;
          unstaged = get_unstaged_changes r;
          unstaged1 =
            (if include_untracked
             then unstaged @ concat (map (untracked_change r) (untracked_files r))
             else unstaged);
          all_files = staged @ unstaged1
      in \<lparr>staged_files = staged, unstaged_files = unstaged1,
          total_insertions = sum_list (map insertions all_files),
          total_deletions = sum_list (map deletions all_files),
          total_files = int (length all_files)\<rparr>)"

text \<open>
  \<open>has_changes\<close>: the three tests are joined by \<open>or\<close>, so a later one is made only when
  the earlier ones are false.
\<close>

definition has_changes :: "Repo \<Rightarrow> py_error + bool" where
  "has_changes r =
     (if is_dirty r then Inr True
      else if length (untracked_files r) > 0 then Inr True
      else (case index_diff_head r of
              None \<Rightarrow> Inl BadName
            | Some n \<Rightarrow> Inr (n > 0)))"

text \<open>
  Reading the changes of a directory: the analyzer is constructed, then asked for all
  changes, as the entry points of the program do. When the constructor raises there
  is no analyzer to ask.
\<close>

definition readChanges :: "(pystr \<Rightarrow> repo_open) \<Rightarrow> pystr option \<Rightarrow> bool \<Rightarrow> py_error + GitChanges" where
  "readChanges git_Repo repo_path_arg include_untracked =
     (case GitAnalyzer_init git_Repo repo_path_arg of
        Inl e \<Rightarrow> Inl e
      | Inr analyzer \<Rightarrow> Inr (get_all_changes (repo analyzer) include_untracked))"


section \<open>The start of main (auto\_commit.py)\<close>

text \<open>
  The \<open>--files\<close> filter of \<open>main\<close>: both partitions are restricted to the given paths
  and \<open>total_files\<close> is assigned again. No other field is assigned.
\<close>

definition filter_files :: "pystr list \<Rightarrow> GitChanges \<Rightarrow> GitChanges" where
  "filter_files files changes =
     (let changes1 = changes\<lparr>staged_files := filter (\<lambda>f. path f \<in> set files) (staged_files changes)\<rparr>;
          changes2 = changes1\<lparr>unstaged_files :=
                        filter (\<lambda>f. path f \<in> set files) (unstaged_files changes1)\<rparr>
      in changes2\<lparr>total_files :=
                    int (length (staged_files changes2)) + int (length (unstaged_files changes2))\<rparr>)"

text \<open>
  \<open>main\<close> from the construction of the analyzer to the summary it prints: it either
  leaves with an exit code or goes on with the changes. Any exception is caught at the
  top of \<open>main\<close>, which then leaves with code 1.
\<close>

datatype run = Exit int | Proceed GitChanges

definition main_changes :: "(pystr \<Rightarrow> repo_open) \<Rightarrow> bool \<Rightarrow> pystr list option \<Rightarrow> run" where
  "main_changes git_Repo staged_only files_arg =
     (case GitAnalyzer_init git_Repo None of
        Inl e \<Rightarrow> Exit 1
      | Inr analyzer \<Rightarrow>
          (case has_changes (repo analyzer) of
             Inl e \<Rightarrow> Exit 1
           | Inr pending \<Rightarrow>
               if \<not> pending then Exit 0
               else
                 (let changes = get_all_changes (repo analyzer) (\<not> staged_only);
                      changes1 =
                        (case files_arg of
                           None \<Rightarrow> changes
                         | Some files \<Rightarrow>
                             if files \<noteq> [] then filter_files files changes else changes)
                  in if total_files changes1 = 0 then Exit 0 else Proceed changes1)))"


section \<open>Example inputs\<close>

text \<open>A test file and a service file, each with one changed line.\<close>

definition test_utils_change :: FileChange where
  "test_utils_change =
     \<lparr>path = ustr ''test_utils.py'', change_type = ustr ''M'', insertions = 1,
      deletions = 0, diff = ustr ''+x = 1''\<rparr>"

definition auth_service_change :: FileChange where
  "auth_service_change =
     \<lparr>path = ustr ''auth_service.py'', change_type = ustr ''M'', insertions = 1,
      deletions = 0, diff = ustr ''+x = 1''\<rparr>"

text \<open>
  The diff of a modified file: one added assignment, one removed condition, a file
  header and an added comment.
\<close>

definition handler_diff :: pystr where
  "handler_diff = join [NL] (map ustr [''+x = 1'', ''-if y:'', ''+++ b/handler.py'', ''+# no''])"

definition handler_change :: FileChange where
  "handler_change =
     \<lparr>path = ustr ''handler.py'', change_type = ustr ''M'', insertions = 2,
      deletions = 1, diff = handler_diff\<rparr>"

text \<open>Three changes with 600 changed lines in all, two of them Python files.\<close>

definition big_py :: FileChange where
  "big_py = \<lparr>path = ustr ''big.py'', change_type = ustr ''M'', insertions = 300,
             deletions = 100, diff = []\<rparr>"

definition small_py :: FileChange where
  "small_py = \<lparr>path = ustr ''small.py'', change_type = ustr ''M'', insertions = 40,
               deletions = 10, diff = []\<rparr>"

definition notes_md :: FileChange where
  "notes_md = \<lparr>path = ustr ''notes.md'', change_type = ustr ''M'', insertions = 100,
               deletions = 50, diff = []\<rparr>"

definition changes_600 :: "FileChange list" where
  "changes_600 = [small_py, notes_md, big_py]"

text \<open>
  A file of ten lines without a final line break, the same file with one, and a
  repository where every path reads as one or the other.
\<close>

definition ten_lines :: pystr where
  "ten_lines = join [NL] (map ustr [''l1'', ''l2'', ''l3'', ''l4'', ''l5'', ''l6'', ''l7'',
                                    ''l8'', ''l9'', ''l10''])"

definition repo_reading :: "pystr \<Rightarrow> Repo" where
  "repo_reading content =
     \<lparr>git_status = Some [], subprocess_status = Some [],
      git_diff_cached = (\<lambda>p. Some []), subprocess_diff = (\<lambda>p. Some []),
      read_file = (\<lambda>p. Content content), untracked_files = [],
      is_dirty = True, index_diff_head = Some 0\<rparr>"

text \<open>
  A repository with nothing staged or modified and two untracked files: \<open>a.py\<close> of one
  line and \<open>b.py\<close> of two.
\<close>

definition repo_two_untracked :: Repo where
  "repo_two_untracked =
     \<lparr>git_status = Some [], subprocess_status = Some [],
      git_diff_cached = (\<lambda>p. Some []), subprocess_diff = (\<lambda>p. Some []),
      read_file = (\<lambda>p. if p = ustr ''a.py'' then Content (ustr ''x = 1'')
                        else if p = ustr ''b.py'' then Content (ustr ''y = 2'' @ [NL] @ ustr ''z = 3'')
                        else Missing),
      untracked_files = [ustr ''a.py'', ustr ''b.py''],
      is_dirty = False, index_diff_head = Some 0\<rparr>"


section \<open>Facts about strings\<close>

lemmas string_eval = ustr_def lower_def lower_char_def strip_def isspace_def

lemma split_on_nonempty: "split_on sep s \<noteq> []"
  by (induction s) (auto split: list.splits)

lemma split_on_no_sep: "l \<in> set (split_on sep s) \<Longrightarrow> sep \<notin> set l"
proof (induction s arbitrary: l)
  case Nil
  then show ?case by simp
next
  case (Cons c cs)
  obtain h t where ht: "split_on sep cs = h # t"
    using split_on_nonempty [of sep cs] by (cases "split_on sep cs") auto
  show ?case
  proof (cases "c = sep")
    case True
    with Cons show ?thesis by auto
  next
    case False
    with Cons.prems ht have "l = c # h \<or> l \<in> set t" by auto
    then show ?thesis
    proof
      assume "l = c # h"
      moreover have "sep \<notin> set h" using Cons.IH [of h] ht by simp
      ultimately show ?thesis using False by auto
    next
      assume "l \<in> set t"
      then show ?thesis using Cons.IH [of l] ht by simp
    qed
  qed
qed

lemma split_on_whole: "sep \<notin> set x \<Longrightarrow> split_on sep x = [x]"
  by (induction x) auto

lemma split_on_append: "sep \<notin> set x \<Longrightarrow> split_on sep (x @ sep # r) = x # split_on sep r"
  by (induction x) auto

lemma split_on_join:
  "ls \<noteq> [] \<Longrightarrow> \<forall>l \<in> set ls. sep \<notin> set l \<Longrightarrow> split_on sep (join [sep] ls) = ls"
proof (induction "[sep]" ls rule: join.induct)
  case 1
  then show ?case by simp
next
  case (2 x)
  then show ?case by (simp add: split_on_whole)
next
  case (3 x y ys)
  then show ?case by (simp add: split_on_append)
qed

lemma length_split_on_join:
  "\<forall>l \<in> set ls. sep \<notin> set l \<Longrightarrow> length (split_on sep (join [sep] ls)) = max 1 (length ls)"
proof (cases ls)
  case Nil
  then show ?thesis by simp
next
  case (Cons a as)
  then have "ls \<noteq> []" by simp
  moreover assume "\<forall>l \<in> set ls. sep \<notin> set l"
  ultimately have "split_on sep (join [sep] ls) = ls" by (rule split_on_join)
  with Cons show ?thesis by simp
qed

lemma startswith_append: "startswith (p @ s) p"
  by (induction p) auto

lemma startswith_Cons: "startswith s (a # p) \<Longrightarrow> \<exists>t. s = a # t"
  by (cases s) auto

lemma contains_subset: "contains s p \<Longrightarrow> x \<in> set p \<Longrightarrow> x \<in> set s"
proof (induction s)
  case Nil
  then show ?case by simp
next
  case (Cons c cs)
  have sw: "startswith t q \<Longrightarrow> x \<in> set q \<Longrightarrow> x \<in> set t" for t q
    by (induction t q rule: startswith.induct) auto
  from Cons show ?case using sw [of "c # cs" p] by auto
qed

lemma strip_empty_all_space: "strip s = [] \<Longrightarrow> \<forall>c \<in> set s. isspace c"
proof -
  assume "strip s = []"
  then have "dropWhile isspace (rev (dropWhile isspace s)) = []"
    by (simp add: strip_def)
  then have all: "\<forall>c \<in> set (dropWhile isspace s). isspace c"
    by (simp add: dropWhile_eq_Nil_conv)
  have "dropWhile isspace s = []"
  proof (cases "dropWhile isspace s")
    case Nil
    then show ?thesis .
  next
    case (Cons a as)
    then have "\<not> isspace a" using hd_dropWhile [of isspace s] by simp
    moreover have "isspace a" using all Cons by simp
    ultimately show ?thesis by simp
  qed
  then show ?thesis by (simp add: dropWhile_eq_Nil_conv)
qed

lemma strip_subset: "set (strip s) \<subseteq> set s"
proof -
  have "set (strip s) \<subseteq> set (dropWhile isspace s)"
    unfolding strip_def using set_dropWhileD [of _ isspace "rev (dropWhile isspace s)"] by auto
  also have "\<dots> \<subseteq> set s" using set_dropWhileD [of _ isspace s] by auto
  finally show ?thesis .
qed

lemma foldl_append_concat: "foldl (\<lambda>s x. s @ g x) acc xs = acc @ concat (map g xs)"
  by (induction xs arbitrary: acc) auto

lemma concat_map_split:
  "c \<in> set xs \<Longrightarrow> \<exists>pre post. concat (map f xs) = pre @ f c @ post"
proof -
  assume "c \<in> set xs"
  then obtain ys zs where "xs = ys @ c # zs" by (auto simp: in_set_conv_decomp)
  then have "concat (map f xs) = concat (map f ys) @ f c @ concat (map f zs)" by simp
  then show ?thesis by blast
qed

lemma concat_heads:
  "\<forall>x \<in> set xs. \<exists>t. f x = a # t \<Longrightarrow> concat (map f xs) = [] \<or> (\<exists>t. concat (map f xs) = a # t)"
  by (cases xs) auto


section \<open>The line filter\<close>

lemma important_patterns_visible:
  "list_all (\<lambda>pattern. list_ex (\<lambda>c. \<not> isspace c) pattern) important_patterns"
  by (simp add: important_patterns_def ustr_def isspace_def)

lemma blank_not_important: "strip line = [] \<Longrightarrow> \<not> is_important_line line"
proof
  assume blank: "strip line = []" and imp: "is_important_line line"
  from imp have "list_ex (\<lambda>pattern. contains line pattern) important_patterns"
    by (simp add: is_important_line_def Let_def split: if_splits)
  then obtain pattern where p: "pattern \<in> set important_patterns" "contains line pattern"
    by (auto simp: list_ex_iff)
  from p(1) important_patterns_visible obtain c where c: "c \<in> set pattern" "\<not> isspace c"
    by (auto simp: list_all_iff list_ex_iff)
  from contains_subset [OF p(2) c(1)] strip_empty_all_space [OF blank] c(2)
  show False by blast
qed

lemma comment_rejected: "\<not> is_important_line (ustr ''    # just a comment'')"
  by (simp add: is_important_line_def string_eval skip_patterns_def important_patterns_def)

lemma condition_accepted: "is_important_line (ustr ''if user.active:'')"
  by (simp add: is_important_line_def string_eval skip_patterns_def important_patterns_def)

text \<open>
  C5, as stated, fails. The line \<open>a= \<close> has two characters once trimmed, yet the filter
  accepts it: the length test of \<open>_is_important_line\<close> counts the characters of the
  argument as passed, here three, and the line contains the signal token \<open>=\<close>.
\<close>

theorem short_after_trim_counterexample:
  "length (strip (ustr ''a= '')) < 3 \<and> is_important_line (ustr ''a= '')"
  by (simp add: is_important_line_def string_eval skip_patterns_def important_patterns_def)

text \<open>
  C5, amended. The filter returns false for every line of fewer than three characters
  as passed, and for every line that is blank once trimmed; it returns false for every
  line whose trimmed, lower-cased form starts with or equals a noise token; it returns
  true only for lines that contain a signal token. It rejects the comment line
  \<open>    # just a comment\<close> and accepts \<open>if user.active:\<close>.
\<close>

theorem line_filter:
  "(length line < 3 \<longrightarrow> \<not> is_important_line line)
   \<and> (strip line = [] \<longrightarrow> \<not> is_important_line line)
   \<and> (list_ex (\<lambda>pattern. startswith (strip (lower line)) pattern
                          \<or> strip (lower line) = pattern) skip_patterns
        \<longrightarrow> \<not> is_important_line line)
   \<and> (is_important_line line
        \<longrightarrow> list_ex (\<lambda>pattern. contains line pattern) important_patterns)
   \<and> \<not> is_important_line (ustr ''    # just a comment'')
   \<and> is_important_line (ustr ''if user.active:'')"
proof -
  have short: "length line < 3 \<longrightarrow> \<not> is_important_line line"
    by (simp add: is_important_line_def)
  have noise: "list_ex (\<lambda>pattern. startswith (strip (lower line)) pattern
                          \<or> strip (lower line) = pattern) skip_patterns
        \<longrightarrow> \<not> is_important_line line"
    by (simp add: is_important_line_def Let_def)
  have signal: "is_important_line line
        \<longrightarrow> list_ex (\<lambda>pattern. contains line pattern) important_patterns"
    by (simp add: is_important_line_def Let_def split: if_splits)
  from short noise signal blank_not_important [of line] comment_rejected condition_accepted
  show ?thesis by blast
qed

theorem line_filter_witness:
  "length (ustr ''ab'') < 3 \<and> \<not> is_important_line (ustr ''ab'')
   \<and> strip (ustr ''    '') = [] \<and> \<not> is_important_line (ustr ''    '')
   \<and> list_ex (\<lambda>pattern. startswith (strip (lower (ustr ''  Import os''))) pattern
                          \<or> strip (lower (ustr ''  Import os'')) = pattern) skip_patterns
   \<and> \<not> is_important_line (ustr ''  Import os'')
   \<and> is_important_line (ustr ''x = 1'')
   \<and> list_ex (\<lambda>pattern. contains (ustr ''x = 1'') pattern) important_patterns"
proof -
  have a: "length (ustr ''ab'') < 3" by (simp add: ustr_def)
  have b: "strip (ustr ''    '') = []" by (simp add: string_eval)
  have c: "list_ex (\<lambda>pattern. startswith (strip (lower (ustr ''  Import os''))) pattern
                          \<or> strip (lower (ustr ''  Import os'')) = pattern) skip_patterns"
    by (simp add: string_eval skip_patterns_def)
  have d: "is_important_line (ustr ''x = 1'')"
    by (simp add: is_important_line_def string_eval skip_patterns_def important_patterns_def)
  from a b c d line_filter [of "ustr ''ab''"] line_filter [of "ustr ''    ''"]
    line_filter [of "ustr ''  Import os''"] line_filter [of "ustr ''x = 1''"]
  show ?thesis by blast
qed


section \<open>The body of a modified file\<close>

lemma plus_not_minus: "startswith line (ustr ''-'') \<Longrightarrow> \<not> startswith line (ustr ''+'')"
  by (cases line) (auto simp: ustr_def)

lemma collect_loop_filter:
  "collect_loop lines additions dels =
     (additions @ map (\<lambda>line. ustr ''+ '' @ take 100 (strip (drop 1 line)))
                    (filter (\<lambda>line. added_line line \<and> is_important_line (strip (drop 1 line))) lines),
      dels @ map (\<lambda>line. ustr ''- '' @ take 100 (strip (drop 1 line)))
               (filter (\<lambda>line. removed_line line \<and> is_important_line (strip (drop 1 line))) lines))"
proof (induction lines arbitrary: additions dels)
  case Nil
  then show ?case by simp
next
  case (Cons line lines)
  show ?case
  proof (cases "added_line line")
    case True
    then have "\<not> removed_line line"
      using plus_not_minus [of line] by (auto simp: added_line_def removed_line_def)
    with True Cons show ?thesis
      by (simp add: added_line_def Let_def)
  next
    case False
    with Cons show ?thesis
      by (auto simp: added_line_def removed_line_def Let_def)
  qed
qed

lemma collect_loop_important:
  "collect_loop (split_on NL d) [] [] = (important_added d, important_removed d)"
  by (simp add: collect_loop_filter important_added_def important_removed_def)

lemma compress_diff_content_modified:
  "ctype \<noteq> ustr ''A'' \<Longrightarrow>
   compress_diff_content d level ctype =
     join [NL] (take 30 (capped_group REMOVED (max_lines level div 2) (important_removed d)
                        @ capped_group ADDED (max_lines level div 2) (important_added d)))"
  by (simp add: compress_diff_content_def collect_loop_important capped_group_def)

lemma length_capped_group: "length (capped_group heading cap entries) \<le> Suc cap"
  by (simp add: capped_group_def)

lemma max_lines_half: "max_lines level div 2 \<le> 10"
  by (simp add: max_lines_def)

lemma rendered_no_newline:
  "NL \<notin> set line \<Longrightarrow> NL \<notin> set mark \<Longrightarrow> NL \<notin> set (mark @ take 100 (strip (drop 1 line)))"
proof -
  assume a: "NL \<notin> set line" and m: "NL \<notin> set mark"
  have "set (take 100 (strip (drop 1 line))) \<subseteq> set line"
    using set_take_subset [of 100 "strip (drop 1 line)"] strip_subset [of "drop 1 line"]
      set_drop_subset [of 1 line] by blast
  with a m show ?thesis by auto
qed

lemma important_added_no_newline: "e \<in> set (important_added d) \<Longrightarrow> NL \<notin> set e"
proof -
  assume "e \<in> set (important_added d)"
  then obtain line where l: "line \<in> set (split_on NL d)"
    and e: "e = ustr ''+ '' @ take 100 (strip (drop 1 line))"
    by (auto simp: important_added_def)
  have m: "NL \<notin> set (ustr ''+ '')" by (simp add: ustr_def)
  from rendered_no_newline [OF split_on_no_sep [OF l] m] e show ?thesis by simp
qed

lemma important_removed_no_newline: "e \<in> set (important_removed d) \<Longrightarrow> NL \<notin> set e"
proof -
  assume "e \<in> set (important_removed d)"
  then obtain line where l: "line \<in> set (split_on NL d)"
    and e: "e = ustr ''- '' @ take 100 (strip (drop 1 line))"
    by (auto simp: important_removed_def)
  have m: "NL \<notin> set (ustr ''- '')" by (simp add: ustr_def)
  from rendered_no_newline [OF split_on_no_sep [OF l] m] e show ?thesis by simp
qed

lemma capped_group_no_newline:
  "NL \<notin> set heading \<Longrightarrow> \<forall>e \<in> set entries. NL \<notin> set e \<Longrightarrow>
   \<forall>e \<in> set (capped_group heading cap entries). NL \<notin> set e"
  using set_take_subset [of cap entries] by (auto simp: capped_group_def)

lemma handler_diff_removed: "important_removed handler_diff = [ustr ''- if y:'']"
  by (simp add: important_removed_def handler_diff_def removed_line_def is_important_line_def
      string_eval skip_patterns_def important_patterns_def)

lemma handler_diff_added: "important_added handler_diff = [ustr ''+ x = 1'']"
  by (simp add: important_added_def handler_diff_def added_line_def is_important_line_def
      string_eval skip_patterns_def important_patterns_def)

text \<open>
  C6. For a file that is not newly added (modified, deleted or renamed), the body that
  \<open>_compress_diff_content\<close> returns is the removed lines that pass the importance
  filter, under their heading, followed by the added lines that pass it, under theirs;
  each group is capped at half of \<open>max_lines\<close>, which is 20 at level Detailed and 10
  otherwise; the body has at most 30 lines. In smart mode the segment of such a file
  with a non-empty diff is its header, this body and a line break.
\<close>

theorem modified_file_body:
  "ctype \<noteq> ustr ''A'' \<Longrightarrow>
   compress_diff_content d level ctype =
     join [NL] (capped_group REMOVED (max_lines level div 2) (important_removed d)
                @ capped_group ADDED (max_lines level div 2) (important_added d))
   \<and> max_lines level = (if level = DETAILED then 20 else 10)
   \<and> length (split_on NL (compress_diff_content d level ctype)) \<le> 30
   \<and> (change_type change = ctype \<and> diff change = d \<and> d \<noteq> [] \<longrightarrow>
        smart_segment level change
          = smart_header change @ compress_diff_content d level ctype @ [NL])"
proof -
  assume ct: "ctype \<noteq> ustr ''A''"
  let ?body = "capped_group REMOVED (max_lines level div 2) (important_removed d)
                @ capped_group ADDED (max_lines level div 2) (important_added d)"
  have len: "length ?body \<le> 22"
    using length_capped_group [of REMOVED "max_lines level div 2" "important_removed d"]
      length_capped_group [of ADDED "max_lines level div 2" "important_added d"]
      max_lines_half [of level]
    by simp
  then have eq: "compress_diff_content d level ctype = join [NL] ?body"
    using ct by (simp add: compress_diff_content_modified)
  have r: "NL \<notin> set REMOVED" by (simp add: REMOVED_def)
  have a: "NL \<notin> set ADDED" by (simp add: ADDED_def)
  have nr: "\<forall>e \<in> set (important_removed d). NL \<notin> set e"
    using important_removed_no_newline by blast
  have na: "\<forall>e \<in> set (important_added d). NL \<notin> set e"
    using important_added_no_newline by blast
  have nonl: "\<forall>e \<in> set ?body. NL \<notin> set e"
    using capped_group_no_newline [OF r nr, of "max_lines level div 2"]
      capped_group_no_newline [OF a na, of "max_lines level div 2"]
    by (simp add: ball_Un)
  have "length (split_on NL (join [NL] ?body)) = max 1 (length ?body)"
    using length_split_on_join [OF nonl] .
  with len eq have lines: "length (split_on NL (compress_diff_content d level ctype)) \<le> 30"
    by simp
  have seg: "change_type change = ctype \<and> diff change = d \<and> d \<noteq> [] \<longrightarrow>
        smart_segment level change
          = smart_header change @ compress_diff_content d level ctype @ [NL]"
    by (simp add: smart_segment_def)
  from eq lines seg show ?thesis by (simp add: max_lines_def)
qed

theorem modified_file_body_witness:
  "ustr ''M'' \<noteq> ustr ''A''
   \<and> change_type handler_change = ustr ''M'' \<and> diff handler_change = handler_diff
   \<and> handler_diff \<noteq> []
   \<and> compress_diff_content handler_diff QUICK (ustr ''M'')
       = join [NL] [REMOVED, ustr ''- if y:'', ADDED, ustr ''+ x = 1'']
   \<and> length (split_on NL (compress_diff_content handler_diff QUICK (ustr ''M''))) \<le> 30
   \<and> smart_segment QUICK handler_change
       = smart_header handler_change
         @ compress_diff_content handler_diff QUICK (ustr ''M'') @ [NL]"
proof -
  have ne: "ustr ''M'' \<noteq> ustr ''A''" by (simp add: ustr_def)
  have ct: "change_type handler_change = ustr ''M''" by (simp add: handler_change_def)
  have df: "diff handler_change = handler_diff" by (simp add: handler_change_def)
  have nonempty: "handler_diff \<noteq> []" by (simp add: handler_diff_def ustr_def)
  have groups:
    "capped_group REMOVED (max_lines QUICK div 2) (important_removed handler_diff)
     @ capped_group ADDED (max_lines QUICK div 2) (important_added handler_diff)
     = [REMOVED, ustr ''- if y:'', ADDED, ustr ''+ x = 1'']"
    by (simp add: capped_group_def handler_diff_removed handler_diff_added max_lines_def)
  note body = modified_file_body [OF ne, of handler_diff QUICK handler_change]
  from body have "compress_diff_content handler_diff QUICK (ustr ''M'')
       = join [NL] (capped_group REMOVED (max_lines QUICK div 2) (important_removed handler_diff)
                    @ capped_group ADDED (max_lines QUICK div 2) (important_added handler_diff))"
    by blast
  then have eq: "compress_diff_content handler_diff QUICK (ustr ''M'')
       = join [NL] [REMOVED, ustr ''- if y:'', ADDED, ustr ''+ x = 1'']"
    by (simp only: groups)
  from body ne ct df nonempty eq show ?thesis by blast
qed


section \<open>File priorities and smart mode\<close>

lemma compress_smart_loop_concat:
  "compress_smart_loop changes level result =
     result @ concat (map (smart_segment level)
       (filter (\<lambda>c. \<not> (get_file_priority (path c) = ustr ''low'' \<and> level = QUICK)) changes))"
  by (induction changes arbitrary: result) (auto simp: Let_def)

lemma compress_smart_concat:
  "compress_smart changes level =
     concat (map (smart_segment level)
       (filter (\<lambda>c. \<not> (get_file_priority (path c) = ustr ''low'' \<and> level = QUICK)) changes))"
  by (simp add: compress_smart_def compress_smart_loop_concat)

lemma priority_auth_service: "get_file_priority (ustr ''auth_service.py'') = ustr ''high''"
  by (simp add: get_file_priority_def string_eval low_priority_patterns_def high_priority_patterns_def)

lemma priority_test_utils: "get_file_priority (ustr ''test_utils.py'') = ustr ''low''"
  by (simp add: get_file_priority_def string_eval low_priority_patterns_def high_priority_patterns_def)

lemma smart_segment_described: "smart_segment level = described_segment level"
  by (rule ext) (simp add: smart_segment_def smart_header_def described_segment_def
      described_header_def ustr_def)

lemma compress_diff_content_groups:
  "ctype \<noteq> ustr ''A'' \<Longrightarrow>
   compress_diff_content d level ctype =
     join [NL] (capped_group REMOVED (max_lines level div 2) (important_removed d)
                @ capped_group ADDED (max_lines level div 2) (important_added d))"
proof -
  assume ct: "ctype \<noteq> ustr ''A''"
  have "length (capped_group REMOVED (max_lines level div 2) (important_removed d)
                @ capped_group ADDED (max_lines level div 2) (important_added d)) \<le> 22"
    using length_capped_group [of REMOVED "max_lines level div 2" "important_removed d"]
      length_capped_group [of ADDED "max_lines level div 2" "important_added d"]
      max_lines_half [of level]
    by simp
  with ct show ?thesis by (simp add: compress_diff_content_modified)
qed

lemma auth_service_added: "important_added (diff auth_service_change) = [ustr ''+ x = 1'']"
  by (simp add: auth_service_change_def important_added_def added_line_def
      is_important_line_def string_eval skip_patterns_def important_patterns_def)

lemma auth_service_removed: "important_removed (diff auth_service_change) = []"
  by (simp add: auth_service_change_def important_removed_def removed_line_def ustr_def)

text \<open>
  C4. The path \<open>auth_service.py\<close> has priority high and \<open>test_utils.py\<close> has priority
  low. In smart mode at level Quick the output is exactly the segments of the files
  whose priority is not low, in order, so that a low-priority file can be taken out of
  the change list without changing the output: it leaves no header and no body. The
  segment of every high-priority file is part of the output: its header line (path,
  change kind, insertions and deletions) followed, unless the diff is empty, by the
  compressed body and a line break; for a file that is not newly added the body is
  the removed and the added lines that pass the filter, under their headings. Up to
  200 changed lines \<open>compress\<close> at level Quick is smart mode.
\<close>

theorem priority_gating:
  "get_file_priority (ustr ''auth_service.py'') = ustr ''high''
   \<and> get_file_priority (ustr ''test_utils.py'') = ustr ''low''
   \<and> compress_smart changes QUICK =
       concat (map (described_segment QUICK)
         (filter (\<lambda>c. get_file_priority (path c) \<noteq> ustr ''low'') changes))
   \<and> (get_file_priority (path lo) = ustr ''low'' \<longrightarrow>
        compress_smart (pre @ lo # post) QUICK = compress_smart (pre @ post) QUICK)
   \<and> (hi \<in> set changes \<and> get_file_priority (path hi) = ustr ''high'' \<longrightarrow>
        (\<exists>before after. compress_smart changes QUICK
            = before
              @ described_header (path hi) (change_type hi) (insertions hi) (deletions hi)
              @ (if diff hi = [] then []
                 else compress_diff_content (diff hi) QUICK (change_type hi) @ [NL])
              @ after))
   \<and> (change_type hi \<noteq> ustr ''A'' \<longrightarrow>
        compress_diff_content (diff hi) QUICK (change_type hi)
          = join [NL] (capped_group REMOVED 5 (important_removed (diff hi))
                       @ capped_group ADDED 5 (important_added (diff hi))))
   \<and> (sum_list (map (\<lambda>c. insertions c + deletions c) changes) \<le> 200 \<longrightarrow>
        compress changes QUICK = compress_smart changes QUICK)"
proof -
  have entry: "sum_list (map (\<lambda>c. insertions c + deletions c) changes) \<le> 200 \<longrightarrow>
        compress changes QUICK = compress_smart changes QUICK"
    by (simp add: compress_def total_lines_def)
  have eq: "compress_smart cs QUICK =
       concat (map (described_segment QUICK)
         (filter (\<lambda>c. get_file_priority (path c) \<noteq> ustr ''low'') cs))" for cs
    by (simp add: compress_smart_concat smart_segment_described)
  have low: "compress_smart (pre @ lo # post) QUICK = compress_smart (pre @ post) QUICK"
    if "get_file_priority (path lo) = ustr ''low''"
    using that by (simp add: eq)
  have high: "\<exists>before after. compress_smart changes QUICK
            = before
              @ described_header (path hi) (change_type hi) (insertions hi) (deletions hi)
              @ (if diff hi = [] then []
                 else compress_diff_content (diff hi) QUICK (change_type hi) @ [NL])
              @ after"
    if "hi \<in> set changes" "get_file_priority (path hi) = ustr ''high''"
  proof -
    have "ustr ''high'' \<noteq> ustr ''low''" by (simp add: ustr_def)
    with that have "hi \<in> set (filter (\<lambda>c. get_file_priority (path c) \<noteq> ustr ''low'') changes)"
      by simp
    from concat_map_split [OF this, of "described_segment QUICK"]
    obtain before after where "compress_smart changes QUICK
        = before @ described_segment QUICK hi @ after"
      unfolding eq by blast
    then have "compress_smart changes QUICK
            = before
              @ described_header (path hi) (change_type hi) (insertions hi) (deletions hi)
              @ (if diff hi = [] then []
                 else compress_diff_content (diff hi) QUICK (change_type hi) @ [NL])
              @ after"
      by (simp add: described_segment_def)
    then show ?thesis by blast
  qed
  have q: "max_lines QUICK div 2 = 5"
    by (simp add: max_lines_def QUICK_def DETAILED_def ustr_def)
  have body: "change_type hi \<noteq> ustr ''A'' \<longrightarrow>
        compress_diff_content (diff hi) QUICK (change_type hi)
          = join [NL] (capped_group REMOVED 5 (important_removed (diff hi))
                       @ capped_group ADDED 5 (important_added (diff hi)))"
    using compress_diff_content_groups [of "change_type hi" "diff hi" QUICK] q by simp
  show ?thesis
    using priority_auth_service priority_test_utils eq [of changes] low high body entry
    by blast
qed

theorem priority_gating_witness:
  "get_file_priority (path test_utils_change) = ustr ''low''
   \<and> compress_smart ([] @ test_utils_change # [auth_service_change]) QUICK
       = compress_smart ([] @ [auth_service_change]) QUICK
   \<and> auth_service_change \<in> set [test_utils_change, auth_service_change]
   \<and> get_file_priority (path auth_service_change) = ustr ''high''
   \<and> change_type auth_service_change \<noteq> ustr ''A''
   \<and> sum_list (map (\<lambda>c. insertions c + deletions c) [test_utils_change, auth_service_change])
       \<le> 200
   \<and> compress [test_utils_change, auth_service_change] QUICK
       = [NL, 0x2501, 0x2501, 0x2501, 0x20] @ ustr ''auth_service.py (M) +1/-0'' @ [NL]
         @ [0xCD94, 0xAC00, 0xB428, 0x3A] @ [NL]
         @ ustr ''+ x = 1'' @ [NL]"
proof -
  have small: "sum_list (map (\<lambda>c. insertions c + deletions c)
                 [test_utils_change, auth_service_change]) \<le> 200"
    by (simp add: test_utils_change_def auth_service_change_def)
  have lo: "get_file_priority (path test_utils_change) = ustr ''low''"
    by (simp add: test_utils_change_def priority_test_utils)
  have hi: "get_file_priority (path auth_service_change) = ustr ''high''"
    by (simp add: auth_service_change_def priority_auth_service)
  have mem: "auth_service_change \<in> set [test_utils_change, auth_service_change]" by simp
  have ne: "ustr ''high'' \<noteq> ustr ''low''" by (simp add: ustr_def)
  have kind: "change_type auth_service_change \<noteq> ustr ''A''"
    by (simp add: auth_service_change_def ustr_def)
  note gate = priority_gating [of "[test_utils_change, auth_service_change]" test_utils_change
      "[]" "[auth_service_change]" auth_service_change]
  from gate have "compress_smart [test_utils_change, auth_service_change] QUICK =
       concat (map (described_segment QUICK)
         (filter (\<lambda>c. get_file_priority (path c) \<noteq> ustr ''low'')
            [test_utils_change, auth_service_change]))"
    by blast
  with lo hi ne have smart: "compress_smart [test_utils_change, auth_service_change] QUICK
      = described_segment QUICK auth_service_change"
    by simp
  from gate kind have "compress_diff_content (diff auth_service_change) QUICK
        (change_type auth_service_change)
      = join [NL] (capped_group REMOVED 5 (important_removed (diff auth_service_change))
                   @ capped_group ADDED 5 (important_added (diff auth_service_change)))"
    by blast
  then have body: "compress_diff_content (diff auth_service_change) QUICK
        (change_type auth_service_change)
      = [0xCD94, 0xAC00, 0xB428, 0x3A] @ [NL] @ ustr ''+ x = 1''"
    by (simp add: auth_service_added auth_service_removed capped_group_def ADDED_def)
  have header: "described_header (path auth_service_change) (change_type auth_service_change)
       (insertions auth_service_change) (deletions auth_service_change)
     = [NL, 0x2501, 0x2501, 0x2501, 0x20] @ ustr ''auth_service.py (M) +1/-0'' @ [NL]"
    by (simp add: described_header_def auth_service_change_def str_int_def str_nat.simps
        ustr_def)
  have nonempty: "diff auth_service_change \<noteq> []"
    by (simp add: auth_service_change_def ustr_def)
  from gate small have "compress [test_utils_change, auth_service_change] QUICK
      = compress_smart [test_utils_change, auth_service_change] QUICK"
    by blast
  with smart have "compress [test_utils_change, auth_service_change] QUICK
      = described_segment QUICK auth_service_change"
    by simp
  with nonempty have out: "compress [test_utils_change, auth_service_change] QUICK
       = [NL, 0x2501, 0x2501, 0x2501, 0x20] @ ustr ''auth_service.py (M) +1/-0'' @ [NL]
         @ [0xCD94, 0xAC00, 0xB428, 0x3A] @ [NL]
         @ ustr ''+ x = 1'' @ [NL]"
    by (simp add: described_segment_def header body)
  from gate lo hi mem kind small out show ?thesis
    by blast
qed

text \<open>
  C10. The low-priority patterns take precedence: a path whose lower-cased form
  contains a low-priority pattern and a high-priority pattern has priority low.
\<close>

theorem low_priority_precedence:
  "list_ex (\<lambda>pattern. contains (lower p) pattern) low_priority_patterns \<Longrightarrow>
   list_ex (\<lambda>pattern. contains (lower p) pattern) high_priority_patterns \<Longrightarrow>
   get_file_priority p = ustr ''low''"
  by (simp add: get_file_priority_def)

theorem low_priority_precedence_witness:
  "list_ex (\<lambda>pattern. contains (lower (ustr ''test_service.py'')) pattern) low_priority_patterns
   \<and> list_ex (\<lambda>pattern. contains (lower (ustr ''test_service.py'')) pattern) high_priority_patterns
   \<and> get_file_priority (ustr ''test_service.py'') = ustr ''low''
   \<and> list_ex (\<lambda>pattern. contains (lower (ustr ''auth_config.yaml'')) pattern) low_priority_patterns
   \<and> list_ex (\<lambda>pattern. contains (lower (ustr ''auth_config.yaml'')) pattern) high_priority_patterns
   \<and> get_file_priority (ustr ''auth_config.yaml'') = ustr ''low''"
proof -
  have a: "list_ex (\<lambda>pattern. contains (lower (ustr ''test_service.py'')) pattern) low_priority_patterns"
    by (simp add: string_eval low_priority_patterns_def)
  have b: "list_ex (\<lambda>pattern. contains (lower (ustr ''test_service.py'')) pattern) high_priority_patterns"
    by (simp add: string_eval high_priority_patterns_def)
  have c: "list_ex (\<lambda>pattern. contains (lower (ustr ''auth_config.yaml'')) pattern) low_priority_patterns"
    by (simp add: string_eval low_priority_patterns_def)
  have d: "list_ex (\<lambda>pattern. contains (lower (ustr ''auth_config.yaml'')) pattern) high_priority_patterns"
    by (simp add: string_eval high_priority_patterns_def)
  from a b c d low_priority_precedence [OF a b] low_priority_precedence [OF c d]
  show ?thesis by blast
qed



section \<open>Summary mode\<close>

lemma set_first_seen: "set (first_seen xs) = set xs"
  by (induction xs) auto

lemma first_seen_snoc:
  "first_seen (xs @ [x]) = (if x \<in> set xs then first_seen xs else first_seen xs @ [x])"
  by (induction xs) auto

lemma by_type_add_group:
  "by_type_add (map (\<lambda>ext. (ext, ext_group cs ext)) (first_seen (map (\<lambda>c. ext_of (path c)) cs))) c
   = map (\<lambda>ext. (ext, ext_group (cs @ [c]) ext))
       (first_seen (map (\<lambda>c. ext_of (path c)) (cs @ [c])))"
proof (cases "ext_of (path c) \<in> set (map (\<lambda>c. ext_of (path c)) cs)")
  case True
  then show ?thesis
    by (simp add: by_type_add_def Let_def first_seen_snoc set_first_seen ext_group_def o_def
        image_iff)
next
  case False
  have ne: "\<forall>x \<in> set cs. ext_of (path x) \<noteq> ext_of (path c)"
  proof (intro ballI notI)
    fix x
    assume x: "x \<in> set cs" and "ext_of (path x) = ext_of (path c)"
    then have "ext_of (path c) = (\<lambda>c. ext_of (path c)) x" by simp
    with x have "ext_of (path c) \<in> (\<lambda>c. ext_of (path c)) ` set cs" by (rule rev_image_eqI)
    with False show False by simp
  qed
  then have ne2: "\<forall>x \<in> set cs. ext_of (path c) \<noteq> ext_of (path x)"
    by metis
  from ne have "ext_group cs (ext_of (path c)) = []"
    by (simp add: ext_group_def filter_empty_conv)
  with False ne ne2 show ?thesis
    by (simp add: by_type_add_def Let_def first_seen_snoc set_first_seen ext_group_def o_def)
qed

lemma group_by_type_groups:
  "group_by_type changes =
     map (\<lambda>ext. (ext, ext_group changes ext)) (first_seen (map (\<lambda>c. ext_of (path c)) changes))"
proof (induction changes rule: rev_induct)
  case Nil
  then show ?case by (simp add: group_by_type_def)
next
  case (snoc c cs)
  have "group_by_type (cs @ [c]) = by_type_add (group_by_type cs) c"
    by (simp add: group_by_type_def)
  with snoc show ?case by (simp only: by_type_add_group)
qed

lemma summary_group_line_described:
  "summary_group_line ext files =
     described_group_line ext (length files) (sum_list (map insertions files))
       (sum_list (map deletions files))"
  by (simp add: summary_group_line_def described_group_line_def ustr_def)

lemma summary_file_line_described:
  "summary_file_line = (\<lambda>f. described_file_line (path f) (insertions f) (deletions f))"
  by (rule ext) (simp add: summary_file_line_def described_file_line_def ustr_def)

lemma summary_group_append:
  "summary_group summary (ext, files) = summary @ summary_of_group ext files"
  by (simp add: summary_group_def summary_of_group_def foldl_append_concat
      summary_group_line_described summary_file_line_described)

lemma foldl_summary_group:
  "foldl summary_group acc groups
   = acc @ concat (map (\<lambda>(ext, files). summary_of_group ext files) groups)"
proof (induction groups arbitrary: acc)
  case Nil
  then show ?case by simp
next
  case (Cons g gs)
  obtain ext files where g: "g = (ext, files)" by (cases g)
  show ?case by (simp add: g Cons.IH summary_group_append)
qed

lemma compress_summary_spec: "compress_summary changes = summary_spec changes"
  by (simp add: compress_summary_def summary_spec_def foldl_summary_group group_by_type_groups
      o_def BANNER_def)

lemma summary_spec_banner: "startswith (summary_spec changes) BANNER"
  by (simp add: summary_spec_def BANNER_def)

lemma split_on_two_pieces: "sep \<in> set s \<Longrightarrow> tl (split_on sep s) \<noteq> []"
proof (induction s)
  case Nil
  then show ?case by simp
next
  case (Cons c cs)
  show ?case
  proof (cases "c = sep")
    case True
    then show ?thesis by (simp add: split_on_nonempty)
  next
    case False
    with Cons.prems have "sep \<in> set cs" by simp
    with Cons.IH have "tl (split_on sep cs) \<noteq> []" by simp
    with False show ?thesis by (cases "split_on sep cs") auto
  qed
qed

lemma last_split_on_append:
  "last (split_on sep (x @ sep # r)) = last (split_on sep r)"
proof (induction x)
  case Nil
  then show ?case by (simp add: split_on_nonempty)
next
  case (Cons c x)
  show ?case
  proof (cases "c = sep")
    case True
    with Cons show ?thesis by (simp add: split_on_nonempty)
  next
    case False
    have two: "tl (split_on sep (x @ sep # r)) \<noteq> []"
      by (rule split_on_two_pieces) simp
    then obtain piece pieces where sp: "split_on sep (x @ sep # r) = piece # pieces"
      and ne: "pieces \<noteq> []"
      by (cases "split_on sep (x @ sep # r)") auto
    with False Cons show ?thesis by simp
  qed
qed

lemma ext_of_no_dot: "DOT \<notin> set p \<Longrightarrow> ext_of p = ustr ''other''"
  by (simp add: ext_of_def)

lemma ext_of_after_last_dot: "DOT \<notin> set e \<Longrightarrow> ext_of (stem @ DOT # e) = e"
  by (simp add: ext_of_def last_split_on_append split_on_whole)

lemma smart_segment_head: "\<exists>t. smart_segment level c = NL # t"
  by (simp add: smart_segment_def smart_header_def Let_def)

lemma compress_smart_head:
  "compress_smart changes level = [] \<or> (\<exists>t. compress_smart changes level = NL # t)"
  unfolding compress_smart_concat
  by (rule concat_heads) (simp add: smart_segment_head)

lemma BANNER_head: "\<exists>t. BANNER = 0x26A0 # t"
  by (simp add: BANNER_def)

lemma smart_not_summary: "\<not> startswith (compress_smart changes level) BANNER"
proof
  assume a: "startswith (compress_smart changes level) BANNER"
  obtain t where t: "BANNER = 0x26A0 # t" using BANNER_head by blast
  from a t obtain u where "compress_smart changes level = 0x26A0 # u"
    using startswith_Cons [of "compress_smart changes level" "0x26A0" t] by auto
  with compress_smart_head [of changes level] show False by auto
qed

lemma sorted_files_desc: "sorted_wrt (\<lambda>f g. volume g \<le> volume f) (sorted_files files)"
proof -
  have "sorted (map (\<lambda>f. - volume f) (sorted_files files))"
    by (simp add: sorted_files_def)
  then show ?thesis by (simp add: sorted_map)
qed

lemma two_largest:
  "f \<in> set (take 2 (sorted_files files)) \<Longrightarrow> g \<in> set (drop 2 (sorted_files files)) \<Longrightarrow>
   volume g \<le> volume f"
proof -
  have "sorted_wrt (\<lambda>f g. volume g \<le> volume f)
          (take 2 (sorted_files files) @ drop 2 (sorted_files files))"
    using sorted_files_desc [of files] by simp
  then show "f \<in> set (take 2 (sorted_files files)) \<Longrightarrow> g \<in> set (drop 2 (sorted_files files)) \<Longrightarrow>
   volume g \<le> volume f"
    unfolding sorted_wrt_append by blast
qed

lemma mset_sorted_files: "mset (sorted_files files) = mset files"
  by (simp add: sorted_files_def)

lemma total_lines_600: "total_lines changes_600 = 600"
  by (simp add: total_lines_def changes_600_def small_py_def notes_md_def big_py_def)

lemma sorted_600: "sorted_files changes_600 = [big_py, notes_md, small_py]"
  by (simp add: sorted_files_def changes_600_def volume_def small_py_def notes_md_def big_py_def)

lemma summary_600:
  "summary_spec changes_600 =
     [0x26A0, 0xFE0F, 0x20, 0x20, 0xB300, 0xB7C9, 0x20, 0xBCC0, 0xACBD, 0x20, 0xAC10, 0xC9C0,
      0x20, 0x2D, 0x20, 0xC694, 0xC57D, 0x20, 0xB9AC, 0xBDF0, NL, NL]
     @ [0x1F4C1, 0x20] @ ustr ''.py'' @ [0x20, 0xD30C, 0xC77C] @ ustr '': 2'' @ [0xAC1C]
     @ ustr '' (+340/-110)'' @ [NL]
     @ [0x20, 0x20, 0x2022, 0x20] @ ustr ''big.py (+300/-100)'' @ [NL]
     @ [0x20, 0x20, 0x2022, 0x20] @ ustr ''small.py (+40/-10)'' @ [NL]
     @ [0x1F4C1, 0x20] @ ustr ''.md'' @ [0x20, 0xD30C, 0xC77C] @ ustr '': 1'' @ [0xAC1C]
     @ ustr '' (+100/-50)'' @ [NL]
     @ [0x20, 0x20, 0x2022, 0x20] @ ustr ''notes.md (+100/-50)'' @ [NL]"
proof -
  have e1: "ext_of (path small_py) = ustr ''py''" by (simp add: ext_of_def small_py_def ustr_def)
  have e2: "ext_of (path notes_md) = ustr ''md''" by (simp add: ext_of_def notes_md_def ustr_def)
  have e3: "ext_of (path big_py) = ustr ''py''" by (simp add: ext_of_def big_py_def ustr_def)
  have ne: "ustr ''md'' \<noteq> ustr ''py''" by (simp add: ustr_def)
  have s1: "sorted_files [small_py, big_py] = [big_py, small_py]"
    by (simp add: sorted_files_def volume_def small_py_def big_py_def)
  have s2: "sorted_files [notes_md] = [notes_md]" by (simp add: sorted_files_def)
  from ne have ne': "ustr ''py'' \<noteq> ustr ''md''" by metis
  have groups: "summary_spec changes_600 =
     [0x26A0, 0xFE0F, 0x20, 0x20, 0xB300, 0xB7C9, 0x20, 0xBCC0, 0xACBD, 0x20, 0xAC10, 0xC9C0,
      0x20, 0x2D, 0x20, 0xC694, 0xC57D, 0x20, 0xB9AC, 0xBDF0, NL, NL]
     @ described_group_line (ustr ''py'') 2 340 110
     @ described_file_line (ustr ''big.py'') 300 100
     @ described_file_line (ustr ''small.py'') 40 10
     @ described_group_line (ustr ''md'') 1 100 50
     @ described_file_line (ustr ''notes.md'') 100 50"
    by (simp add: summary_spec_def changes_600_def e1 e2 e3 ne ne' ext_group_def
        summary_of_group_def s1 s2)
       (simp add: small_py_def big_py_def notes_md_def numeral_2_eq_2)
  have g1: "described_group_line (ustr ''py'') 2 340 110
      = [0x1F4C1, 0x20] @ ustr ''.py'' @ [0x20, 0xD30C, 0xC77C] @ ustr '': 2'' @ [0xAC1C]
        @ ustr '' (+340/-110)'' @ [NL]"
    by (simp add: described_group_line_def str_int_def str_nat.simps ustr_def)
  have g2: "described_group_line (ustr ''md'') 1 100 50
      = [0x1F4C1, 0x20] @ ustr ''.md'' @ [0x20, 0xD30C, 0xC77C] @ ustr '': 1'' @ [0xAC1C]
        @ ustr '' (+100/-50)'' @ [NL]"
    by (simp add: described_group_line_def str_int_def str_nat.simps ustr_def)
  have f1: "described_file_line (ustr ''big.py'') 300 100
      = [0x20, 0x20, 0x2022, 0x20] @ ustr ''big.py (+300/-100)'' @ [NL]"
    by (simp add: described_file_line_def str_int_def str_nat.simps ustr_def)
  have f2: "described_file_line (ustr ''small.py'') 40 10
      = [0x20, 0x20, 0x2022, 0x20] @ ustr ''small.py (+40/-10)'' @ [NL]"
    by (simp add: described_file_line_def str_int_def str_nat.simps ustr_def)
  have f3: "described_file_line (ustr ''notes.md'') 100 50
      = [0x20, 0x20, 0x2022, 0x20] @ ustr ''notes.md (+100/-50)'' @ [NL]"
    by (simp add: described_file_line_def str_int_def str_nat.simps ustr_def)
  show ?thesis unfolding groups g1 g2 f1 f2 f3 by simp
qed

text \<open>
  C1. When the changed lines (insertions plus deletions over all files) exceed 500 and
  the level is not Detailed, \<open>compress\<close> returns the summary: after the banner, one
  group for each extension in order of first appearance, holding the files of that
  extension; the line of a group gives the number of its files and the sums of their
  insertions and deletions; under it come the first two files of the group sorted by
  size, largest first, each with its path and its own counts. The extension of a path
  is what follows its last dot, or \<open>other\<close> for a path without a dot. The sorted list is
  a rearrangement of the group and no file left out is larger than a file shown. At
  level Detailed the same input is compressed in smart mode, whose output never
  starts with the banner of the summary.
\<close>

theorem volume_gating:
  "500 < sum_list (map (\<lambda>c. insertions c + deletions c) changes) \<Longrightarrow> level \<noteq> DETAILED \<Longrightarrow>
     compress changes level = summary_spec changes
   \<and> startswith (compress changes level) BANNER
   \<and> compress changes DETAILED = compress_smart changes DETAILED
   \<and> \<not> startswith (compress changes DETAILED) BANNER
   \<and> mset (sorted_files files) = mset files
   \<and> length (take 2 (sorted_files files)) \<le> 2
   \<and> (\<forall>f \<in> set (take 2 (sorted_files files)). \<forall>g \<in> set (drop 2 (sorted_files files)).
        insertions g + deletions g \<le> insertions f + deletions f)
   \<and> (DOT \<notin> set p \<longrightarrow> ext_of p = ustr ''other'')
   \<and> (DOT \<notin> set e \<longrightarrow> ext_of (stem @ DOT # e) = e)"
proof -
  assume big: "500 < sum_list (map (\<lambda>c. insertions c + deletions c) changes)"
    and lvl: "level \<noteq> DETAILED"
  have q: "QUICK \<noteq> DETAILED" by (simp add: QUICK_def DETAILED_def ustr_def)
  from big lvl have a: "compress changes level = summary_spec changes"
    by (simp add: compress_def total_lines_def compress_summary_spec)
  have c: "compress changes DETAILED = compress_smart changes DETAILED"
    using q by (simp add: compress_def)
  have d: "\<forall>f \<in> set (take 2 (sorted_files files)). \<forall>g \<in> set (drop 2 (sorted_files files)).
        insertions g + deletions g \<le> insertions f + deletions f"
    using two_largest [of _ files] by (simp add: volume_def)
  from a c d summary_spec_banner [of changes] smart_not_summary [of changes DETAILED]
    mset_sorted_files [of files] ext_of_no_dot [of p] ext_of_after_last_dot [of e stem]
  show ?thesis by simp
qed

theorem volume_gating_witness:
  "500 < sum_list (map (\<lambda>c. insertions c + deletions c) changes_600)
   \<and> sum_list (map (\<lambda>c. insertions c + deletions c) changes_600) = 600
   \<and> NORMAL \<noteq> DETAILED
   \<and> compress changes_600 NORMAL =
       [0x26A0, 0xFE0F, 0x20, 0x20, 0xB300, 0xB7C9, 0x20, 0xBCC0, 0xACBD, 0x20, 0xAC10, 0xC9C0,
        0x20, 0x2D, 0x20, 0xC694, 0xC57D, 0x20, 0xB9AC, 0xBDF0, NL, NL]
       @ [0x1F4C1, 0x20] @ ustr ''.py'' @ [0x20, 0xD30C, 0xC77C] @ ustr '': 2'' @ [0xAC1C]
       @ ustr '' (+340/-110)'' @ [NL]
       @ [0x20, 0x20, 0x2022, 0x20] @ ustr ''big.py (+300/-100)'' @ [NL]
       @ [0x20, 0x20, 0x2022, 0x20] @ ustr ''small.py (+40/-10)'' @ [NL]
       @ [0x1F4C1, 0x20] @ ustr ''.md'' @ [0x20, 0xD30C, 0xC77C] @ ustr '': 1'' @ [0xAC1C]
       @ ustr '' (+100/-50)'' @ [NL]
       @ [0x20, 0x20, 0x2022, 0x20] @ ustr ''notes.md (+100/-50)'' @ [NL]
   \<and> startswith (compress changes_600 NORMAL) BANNER
   \<and> compress changes_600 DETAILED = compress_smart changes_600 DETAILED
   \<and> \<not> startswith (compress changes_600 DETAILED) BANNER
   \<and> take 2 (sorted_files changes_600) = [big_py, notes_md]
   \<and> drop 2 (sorted_files changes_600) = [small_py]
   \<and> insertions small_py + deletions small_py \<le> insertions big_py + deletions big_py
   \<and> insertions small_py + deletions small_py \<le> insertions notes_md + deletions notes_md
   \<and> DOT \<notin> set (ustr ''Makefile'') \<and> ext_of (ustr ''Makefile'') = ustr ''other''
   \<and> DOT \<notin> set (ustr ''gz'') \<and> ext_of (ustr ''a.tar'' @ DOT # ustr ''gz'') = ustr ''gz''"
proof -
  have total: "sum_list (map (\<lambda>c. insertions c + deletions c) changes_600) = 600"
    using total_lines_600 by (simp add: total_lines_def)
  then have big: "500 < sum_list (map (\<lambda>c. insertions c + deletions c) changes_600)" by simp
  have lvl: "NORMAL \<noteq> DETAILED" by (simp add: NORMAL_def DETAILED_def ustr_def)
  have t: "take 2 (sorted_files changes_600) = [big_py, notes_md]" by (simp add: sorted_600)
  have d: "drop 2 (sorted_files changes_600) = [small_py]" by (simp add: sorted_600)
  have n1: "DOT \<notin> set (ustr ''Makefile'')" by (simp add: ustr_def)
  have n2: "DOT \<notin> set (ustr ''gz'')" by (simp add: ustr_def)
  note gate = volume_gating [OF big lvl, of changes_600 "ustr ''Makefile''" "ustr ''gz''"
      "ustr ''a.tar''"]
  from gate have "compress changes_600 NORMAL = summary_spec changes_600" by blast
  then have eq: "compress changes_600 NORMAL =
       [0x26A0, 0xFE0F, 0x20, 0x20, 0xB300, 0xB7C9, 0x20, 0xBCC0, 0xACBD, 0x20, 0xAC10, 0xC9C0,
        0x20, 0x2D, 0x20, 0xC694, 0xC57D, 0x20, 0xB9AC, 0xBDF0, NL, NL]
       @ [0x1F4C1, 0x20] @ ustr ''.py'' @ [0x20, 0xD30C, 0xC77C] @ ustr '': 2'' @ [0xAC1C]
       @ ustr '' (+340/-110)'' @ [NL]
       @ [0x20, 0x20, 0x2022, 0x20] @ ustr ''big.py (+300/-100)'' @ [NL]
       @ [0x20, 0x20, 0x2022, 0x20] @ ustr ''small.py (+40/-10)'' @ [NL]
       @ [0x1F4C1, 0x20] @ ustr ''.md'' @ [0x20, 0xD30C, 0xC77C] @ ustr '': 1'' @ [0xAC1C]
       @ ustr '' (+100/-50)'' @ [NL]
       @ [0x20, 0x20, 0x2022, 0x20] @ ustr ''notes.md (+100/-50)'' @ [NL]"
    by (simp only: summary_600)
  from gate have "\<forall>f \<in> set (take 2 (sorted_files changes_600)).
      \<forall>g \<in> set (drop 2 (sorted_files changes_600)).
        insertions g + deletions g \<le> insertions f + deletions f"
    by blast
  then have v: "insertions small_py + deletions small_py \<le> insertions big_py + deletions big_py
      \<and> insertions small_py + deletions small_py \<le> insertions notes_md + deletions notes_md"
    by (simp add: t d)
  from gate big total lvl eq t d v n1 n2 show ?thesis by blast
qed

section \<open>Empty change lists\<close>

lemma compress_smart_empty: "compress_smart [] level = []"
  by (simp add: compress_smart_def)

text \<open>
  C7. For the empty list of changes and every level, \<open>compress\<close> returns the empty text,
  whose token estimate is zero; \<open>review\<close> returns at once with a token estimate of zero
  and without calling the provider.
\<close>

theorem compress_empty:
  "compress [] level = []
   \<and> estimate_tokens (compress [] level) = 0
   \<and> review provider [] config level =
       Inr \<lparr>review_text = NO_CHANGES, compressed_diff = None, token_estimate = 0,
            review_level = None\<rparr>"
  by (simp add: compress_def total_lines_def compress_smart_empty estimate_tokens_def review_def)


section \<open>Reading the changes\<close>

lemma plus_lines_no_newline:
  "\<forall>l \<in> set (map (\<lambda>line. PLUS # line) (split_on NL content)). NL \<notin> set l"
  using split_on_no_sep [of _ NL content] by auto

lemma added_diff_lines:
  "split_on NL (join [NL] (map (\<lambda>line. PLUS # line) (split_on NL content)))
   = map (\<lambda>line. PLUS # line) (split_on NL content)"
  using split_on_join [OF _ plus_lines_no_newline, of content] split_on_nonempty [of NL content]
  by simp

lemma staged_added_fallback:
  "read_file r p = Content content \<Longrightarrow>
   \<exists>c. staged_change r p (ustr ''A'') = [c] \<and> path c = p \<and> change_type c = ustr ''A''
       \<and> insertions c = int (length (split_on NL content)) \<and> deletions c = 0
       \<and> split_on NL (diff c) = map (\<lambda>line. PLUS # line) (split_on NL content)"
  by (simp add: staged_change_def added_diff_lines)

lemma unstaged_added_fallback:
  "read_file r p = Content content \<Longrightarrow> content \<noteq> [] \<Longrightarrow>
   \<exists>c. unstaged_change r (ustr ''A'') p = [c] \<and> path c = p \<and> change_type c = ustr ''A''
       \<and> insertions c = int (length (split_on NL content)) \<and> deletions c = 0
       \<and> split_on NL (diff c) = map (\<lambda>line. PLUS # line) (split_on NL content)"
proof -
  have "ustr ''A'' \<noteq> ustr ''M''" "ustr ''A'' \<noteq> ustr ''D''" by (simp_all add: ustr_def)
  moreover assume "read_file r p = Content content" "content \<noteq> []"
  ultimately show ?thesis by (simp add: unstaged_change_def added_diff_lines)
qed

lemma ten_lines_split:
  "split_on NL ten_lines = map ustr [''l1'', ''l2'', ''l3'', ''l4'', ''l5'', ''l6'', ''l7'',
                                    ''l8'', ''l9'', ''l10'']"
  unfolding ten_lines_def
  by (rule split_on_join) (simp_all add: ustr_def)

lemma ten_lines_newline_split:
  "split_on NL (ten_lines @ [NL]) = map ustr [''l1'', ''l2'', ''l3'', ''l4'', ''l5'', ''l6'', ''l7'',
                                    ''l8'', ''l9'', ''l10''] @ [ [] ]"
  by (simp add: ten_lines_def ustr_def)

text \<open>
  C2 does not hold on every path. For a staged or unstaged new file the diff has one
  line for each line read, each after a plus sign (the two lemmas above). For an
  untracked file of ten lines \<open>get_all_changes\<close> reports ten insertions and no deletions
  but stores the content as read: none of the ten lines of its diff starts with a plus
  sign, and the key lines drawn from it later are none. A file of ten lines that ends
  with a line break is counted as eleven lines on every path.
\<close>

theorem untracked_added_file_not_prefixed:
  "untracked_change (repo_reading ten_lines) p =
     [\<lparr>path = p, change_type = ustr ''A'', insertions = 10, deletions = 0, diff = ten_lines\<rparr>]
   \<and> length (split_on NL ten_lines) = 10
   \<and> list_all (\<lambda>line. \<not> startswith line (ustr ''+'')) (split_on NL ten_lines)
   \<and> extract_key_changes ten_lines 10 = []
   \<and> map insertions (staged_change (repo_reading ten_lines) p (ustr ''A'')) = [10]
   \<and> map (\<lambda>c. split_on NL (diff c)) (staged_change (repo_reading ten_lines) p (ustr ''A''))
       = [map (\<lambda>line. PLUS # line) (split_on NL ten_lines)]
   \<and> map insertions (staged_change (repo_reading (ten_lines @ [NL])) p (ustr ''A'')) = [11]
   \<and> map insertions (untracked_change (repo_reading (ten_lines @ [NL])) p) = [11]"
proof -
  have a: "untracked_change (repo_reading ten_lines) p =
     [\<lparr>path = p, change_type = ustr ''A'', insertions = 10, deletions = 0, diff = ten_lines\<rparr>]"
    by (simp add: untracked_change_def repo_reading_def ten_lines_split)
  have b: "length (split_on NL ten_lines) = 10" by (simp add: ten_lines_split)
  have c: "list_all (\<lambda>line. \<not> startswith line (ustr ''+'')) (split_on NL ten_lines)"
    by (simp add: ten_lines_split ustr_def)
  have d: "extract_key_changes ten_lines 10 = []"
    by (simp add: extract_key_changes_def ten_lines_split ustr_def)
  have e: "map insertions (staged_change (repo_reading ten_lines) p (ustr ''A'')) = [10]"
    by (simp add: staged_change_def repo_reading_def ten_lines_split)
  have f: "map (\<lambda>c. split_on NL (diff c)) (staged_change (repo_reading ten_lines) p (ustr ''A''))
       = [map (\<lambda>line. PLUS # line) (split_on NL ten_lines)]"
    by (simp add: staged_change_def repo_reading_def added_diff_lines)
  have g: "map insertions (staged_change (repo_reading (ten_lines @ [NL])) p (ustr ''A'')) = [11]"
    by (simp add: staged_change_def repo_reading_def ten_lines_newline_split)
  have h: "map insertions (untracked_change (repo_reading (ten_lines @ [NL])) p) = [11]"
    by (simp add: untracked_change_def repo_reading_def ten_lines_newline_split)
  from a b c d e f g h show ?thesis by blast
qed

lemma get_all_changes_totals:
  "total_insertions (get_all_changes r u)
     = sum_list (map insertions (staged_files (get_all_changes r u) @ unstaged_files (get_all_changes r u)))
   \<and> total_deletions (get_all_changes r u)
     = sum_list (map deletions (staged_files (get_all_changes r u) @ unstaged_files (get_all_changes r u)))
   \<and> total_files (get_all_changes r u)
     = int (length (staged_files (get_all_changes r u))) + int (length (unstaged_files (get_all_changes r u)))"
  by (simp add: get_all_changes_def Let_def)

lemma filter_files_fields:
  "staged_files (filter_files files g) = filter (\<lambda>f. path f \<in> set files) (staged_files g)
   \<and> unstaged_files (filter_files files g) = filter (\<lambda>f. path f \<in> set files) (unstaged_files g)
   \<and> total_files (filter_files files g)
       = int (length (staged_files (filter_files files g)))
         + int (length (unstaged_files (filter_files files g)))
   \<and> total_insertions (filter_files files g) = total_insertions g
   \<and> total_deletions (filter_files files g) = total_deletions g"
  by (simp add: filter_files_def Let_def)

lemma two_untracked_changes:
  "get_all_changes repo_two_untracked True =
     \<lparr>staged_files = [],
      unstaged_files =
        [\<lparr>path = ustr ''a.py'', change_type = ustr ''A'', insertions = 1, deletions = 0,
          diff = ustr ''x = 1''\<rparr>,
         \<lparr>path = ustr ''b.py'', change_type = ustr ''A'', insertions = 2, deletions = 0,
          diff = ustr ''y = 2'' @ [NL] @ ustr ''z = 3''\<rparr>],
      total_insertions = 3, total_deletions = 0, total_files = 2\<rparr>"
  by (simp add: get_all_changes_def get_staged_changes_def get_unstaged_changes_def
      repo_two_untracked_def untracked_change_def staged_status_add_def ustr_def)

text \<open>
  C3 holds when the changes are constructed (lemma \<open>get_all_changes_totals\<close>) but not after
  the \<open>--files\<close> filter of \<open>main\<close>, which assigns \<open>total_files\<close> again and leaves the two
  other totals as they were. In a repository with two untracked files, \<open>a.py\<close> of one
  line and \<open>b.py\<close> of two, the run restricted to \<open>a.py\<close> goes on with one file of one
  insertion and a total of three insertions.
\<close>

theorem stale_totals_after_filter:
  "main_changes (\<lambda>p. Opened repo_two_untracked) False (Some [ustr ''a.py'']) =
     Proceed
       \<lparr>staged_files = [],
        unstaged_files =
          [\<lparr>path = ustr ''a.py'', change_type = ustr ''A'', insertions = 1, deletions = 0,
            diff = ustr ''x = 1''\<rparr>],
        total_insertions = 3, total_deletions = 0, total_files = 1\<rparr>"
proof -
  have "has_changes repo_two_untracked = Inr True"
    by (simp add: has_changes_def repo_two_untracked_def)
  moreover have "ustr ''b.py'' \<noteq> ustr ''a.py''" by (simp add: ustr_def)
  ultimately show ?thesis
    by (simp add: main_changes_def GitAnalyzer_init_def two_untracked_changes filter_files_def)
qed

text \<open>
  C9. When the directory is not a git repository the constructor of the analyzer
  raises a \<open>ValueError\<close> that names the path; reading the changes then yields this error
  and never a set of changes, and \<open>main\<close> leaves with exit code 1.
\<close>

theorem repository_open_failure:
  "git_Repo (path_or_dot repo_path_arg) = Invalid_Git_Repository \<Longrightarrow>
     GitAnalyzer_init git_Repo repo_path_arg
       = Inl (ValueError ([0x27] @ path_or_dot repo_path_arg @ NOT_A_REPOSITORY))
   \<and> readChanges git_Repo repo_path_arg include_untracked
       = Inl (ValueError ([0x27] @ path_or_dot repo_path_arg @ NOT_A_REPOSITORY))
   \<and> (\<forall>changes. readChanges git_Repo repo_path_arg include_untracked \<noteq> Inr changes)
   \<and> (repo_path_arg = None \<longrightarrow> main_changes git_Repo staged_only files_arg = Exit 1)"
  by (auto simp: GitAnalyzer_init_def readChanges_def main_changes_def)

theorem repository_open_failure_witness:
  "(\<lambda>p. Invalid_Git_Repository) (path_or_dot None) = Invalid_Git_Repository
   \<and> GitAnalyzer_init (\<lambda>p. Invalid_Git_Repository) None
       = Inl (ValueError ([0x27] @ ustr ''.'' @ NOT_A_REPOSITORY))
   \<and> readChanges (\<lambda>p. Invalid_Git_Repository) None True
       = Inl (ValueError ([0x27] @ ustr ''.'' @ NOT_A_REPOSITORY))
   \<and> main_changes (\<lambda>p. Invalid_Git_Repository) False None = Exit 1"
  using repository_open_failure [of "\<lambda>p. Invalid_Git_Repository" None True False None]
  by (simp add: path_or_dot_def)

end
